theory Spec2Isabelle
  imports Main "HOL-Library.Sublist"
begin

section \<open>Python strings\<close>

text \<open>
  A Python \<open>str\<close> is a sequence of Unicode code points; it is modelled as a list of
  natural numbers.  \<open>py\<close> turns an ASCII literal into such a text.
\<close>

type_synonym pystr = "nat list"

definition py :: "string \<Rightarrow> pystr" where
  "py s = map of_char s"

text \<open>
  The characters that \<open>str.strip()\<close> without an argument removes: those for which
  \<open>str.isspace\<close> holds (CPython's \<open>_PyUnicode_IsWhitespace\<close>).
\<close>

definition isspace :: "nat \<Rightarrow> bool" where
  "isspace c =
     ((9 \<le> c \<and> c \<le> 13) \<or> (28 \<le> c \<and> c \<le> 32) \<or> c = 133 \<or> c = 160 \<or> c = 5760
      \<or> (8192 \<le> c \<and> c \<le> 8202) \<or> c = 8232 \<or> c = 8233 \<or> c = 8239 \<or> c = 8287
      \<or> c = 12288)"

definition lstrip :: "pystr \<Rightarrow> pystr" where
  "lstrip s = dropWhile isspace s"

definition rstrip :: "pystr \<Rightarrow> pystr" where
  "rstrip s = rev (dropWhile isspace (rev s))"

definition strip :: "pystr \<Rightarrow> pystr" where
  "strip s = rstrip (lstrip s)"

section \<open>The code sanitizer\<close>

text \<open>
  \<open>re.findall\<close> for a pattern that is a literal string without groups: the
  non-overlapping occurrences of the pattern, scanning from the left, each returned as the
  matched text.  (An empty pattern matches once at every position.)
\<close>

function findall_literal :: "pystr \<Rightarrow> pystr \<Rightarrow> pystr list" where
  "findall_literal pat [] = (if pat = [] then [[]] else [])"
| "findall_literal pat (c # cs) =
     (if prefix pat (c # cs)
      then pat # findall_literal pat (drop (length pat - 1) cs)
      else findall_literal pat cs)"
  by pat_completeness auto
termination
  by (relation "measure (\<lambda>(pat, s). length s)") auto

text \<open>
  The pattern of \<open>strip_code_fences\<close> as it stands in the source: six backticks
  (code point 96), nothing between them and no group.  The flags \<open>re.DOTALL\<close> and
  \<open>re.IGNORECASE\<close> change nothing for it: it has no dot and no cased character.
\<close>

definition fence_pattern :: pystr where
  "fence_pattern = replicate 6 96"

definition strip_code_fences :: "pystr \<Rightarrow> pystr" where
  "strip_code_fences t =
     (let code_blocks = findall_literal fence_pattern t
      in case code_blocks of
           b # _ \<Rightarrow> strip b
         | [] \<Rightarrow> strip t)"

section \<open>Errors and early exits\<close>

text \<open>
  The exceptions that occur in the program.  \<open>SyntaxError\<close> carries its message, which the
  controller puts into the next prompt; \<open>OtherError\<close> stands for whatever else a library
  call raises (a missing file, a connection failure, a malformed response).
  \<open>SystemExit\<close> carries the exit status it asks for.
\<close>

datatype error =
    AttributeError | RuntimeError | SyntaxError pystr | UnicodeEncodeError | OtherError
  | SystemExit int | KeyboardInterrupt

text \<open>
  The exceptions that \<open>except Exception\<close> catches: all but \<open>SystemExit\<close> and
  \<open>KeyboardInterrupt\<close>, which derive from \<open>BaseException\<close> only.
\<close>

fun is_exception :: "error \<Rightarrow> bool" where
  "is_exception (SystemExit n) = False"
| "is_exception KeyboardInterrupt = False"
| "is_exception e = True"

text \<open>
  A loop body with an early \<open>return\<close>: it raises, returns from the function, or goes on
  to the next iteration with the accumulator.
\<close>

datatype 'a flow = Raised error | Returned 'a | Running 'a

section \<open>The table preview\<close>

text \<open>
  A cell that pdfplumber extracts is a string or \<open>None\<close>; a table is a list of rows, and a
  page is modelled by the result of its \<open>extract_tables()\<close>.
\<close>

type_synonym cell = "pystr option"
type_synonym row = "cell list"
type_synonym table = "row list"
type_synonym page = "table list"
type_synonym pdf = "page list"

text \<open>\<open>cell if cell else ""\<close>: \<open>None\<close> and the empty string are falsy.\<close>

fun clean_cell :: "cell \<Rightarrow> cell" where
  "clean_cell None = Some []"
| "clean_cell (Some s) = (if s \<noteq> [] then Some s else Some [])"

text \<open>
  \<open>any(cell.strip() for cell in clean_row)\<close>: the generator is consumed until the first
  truthy value; \<open>strip\<close> on \<open>None\<close> raises AttributeError.
\<close>

fun any_strip :: "row \<Rightarrow> error + bool" where
  "any_strip [] = Inr False"
| "any_strip (None # cs) = Inl AttributeError"
| "any_strip (Some s # cs) = (if strip s \<noteq> [] then Inr True else any_strip cs)"

text \<open>The loop over the rows of one table; \<open>lim\<close> is
  \<open>samples_per_section * len(candidate_pages)\<close>.\<close>

fun scan_rows :: "int \<Rightarrow> row list \<Rightarrow> row list \<Rightarrow> row list flow" where
  "scan_rows lim [] preview_rows = Running preview_rows"
| "scan_rows lim (r # rs) preview_rows =
     (let clean_row = map clean_cell r
      in case any_strip clean_row of
           Inl e \<Rightarrow> Raised e
         | Inr False \<Rightarrow> scan_rows lim rs preview_rows
         | Inr True \<Rightarrow>
             (let preview_rows' = preview_rows @ [clean_row]
              in if int (length preview_rows') \<ge> lim then Returned preview_rows'
                 else scan_rows lim rs preview_rows'))"

text \<open>The loop over the tables of one page.\<close>

fun scan_tables :: "int \<Rightarrow> table list \<Rightarrow> row list \<Rightarrow> row list flow" where
  "scan_tables lim [] preview_rows = Running preview_rows"
| "scan_tables lim (t # ts) preview_rows =
     (case scan_rows lim t preview_rows of
        Running preview_rows' \<Rightarrow> scan_tables lim ts preview_rows'
      | stopped \<Rightarrow> stopped)"

text \<open>The loop over the sorted candidate page indices.\<close>

fun scan_pages :: "int \<Rightarrow> pdf \<Rightarrow> int list \<Rightarrow> row list \<Rightarrow> row list flow" where
  "scan_pages lim pages [] preview_rows = Running preview_rows"
| "scan_pages lim pages (page_idx # idxs) preview_rows =
     (if page_idx < 0 \<or> page_idx \<ge> int (length pages)
      then scan_pages lim pages idxs preview_rows
      else let tables = pages ! nat page_idx
           in if tables = [] then scan_pages lim pages idxs preview_rows
              else case scan_tables lim tables preview_rows of
                     Running preview_rows' \<Rightarrow> scan_pages lim pages idxs preview_rows'
                   | stopped \<Rightarrow> stopped)"

definition candidate_pages :: "pdf \<Rightarrow> int set" where
  "candidate_pages pages =
     (let total_pages = int (length pages)
      in {0, total_pages div 2, total_pages - 1})"

definition extract_table_preview :: "pdf \<Rightarrow> int \<Rightarrow> error + row list" where
  "extract_table_preview pages samples_per_section =
     (case scan_pages (samples_per_section * int (card (candidate_pages pages))) pages
             (sorted_list_of_set (candidate_pages pages)) [] of
        Raised e \<Rightarrow> Inl e
      | Returned preview_rows \<Rightarrow> Inr preview_rows
      | Running preview_rows \<Rightarrow> Inr preview_rows)"

section \<open>Mismatch extraction\<close>

text \<open>
  A cell of \<open>df.astype(str).values.tolist()\<close> is a string, or, where the pandas in use
  leaves a missing value in place, a float NaN.  A NaN object is given by its identity.
\<close>

datatype pyval = PyStr pystr | PyNaN nat

type_synonym vrow = "pyval list"
type_synonym srow = "pystr list"

text \<open>\<open>str(x)\<close>.\<close>

fun py_str :: "pyval \<Rightarrow> pystr" where
  "py_str (PyStr s) = s"
| "py_str (PyNaN i) = py ''nan''"

text \<open>
  What the comparison of two lists asks of a pair of elements: that they are the same
  object or compare equal.  Strings compare by value; a NaN equals nothing, itself
  included, so only the same NaN object passes.
\<close>

fun same_element :: "pyval \<Rightarrow> pyval \<Rightarrow> bool" where
  "same_element (PyStr a) (PyStr b) = (a = b)"
| "same_element (PyNaN i) (PyNaN j) = (i = j)"
| "same_element x y = False"

text \<open>\<open>er != ar\<close> on two rows: the lengths differ, or the elements at some position
  are not the same.\<close>

definition rows_differ :: "vrow \<Rightarrow> vrow \<Rightarrow> bool" where
  "rows_differ er ar = (\<not> list_all2 same_element er ar)"

record mismatches =
  expected :: "srow list"
  actual :: "srow list"

definition mismatched :: "vrow list \<Rightarrow> vrow list \<Rightarrow> (vrow \<times> vrow) list" where
  "mismatched df_expected df_actual =
     filter (\<lambda>(er, ar). rows_differ er ar) (zip df_expected df_actual)"

text \<open>
  The body of the \<open>try\<close> block: the candidate is loaded and called first, then the
  expected rows are read; either may raise.  The rows are compared as they are, and the
  first 5 pairs that differ are turned into strings.
\<close>

definition try_mismatches :: "error + vrow list \<Rightarrow> error + vrow list \<Rightarrow> error + mismatches" where
  "try_mismatches df_actual df_expected =
     (case df_actual of
        Inl e \<Rightarrow> Inl e
      | Inr act \<Rightarrow>
          (case df_expected of
             Inl e \<Rightarrow> Inl e
           | Inr exp \<Rightarrow>
               Inr \<lparr>expected = map (\<lambda>t. map py_str (fst t)) (take 5 (mismatched exp act)),
                    actual = map (\<lambda>t. map py_str (snd t)) (take 5 (mismatched exp act))\<rparr>))"

text \<open>
  The \<open>try\<close> statement: an exception that \<open>except Exception\<close> catches leaves both
  lists empty; any other exception leaves the statement, \<open>Inl\<close>.
\<close>

definition extract_mismatches :: "error + vrow list \<Rightarrow> error + vrow list \<Rightarrow> error + mismatches" where
  "extract_mismatches df_actual df_expected =
     (case try_mismatches df_actual df_expected of
        Inr m \<Rightarrow> Inr m
      | Inl e \<Rightarrow> if is_exception e then Inr \<lparr>expected = [], actual = []\<rparr> else Inl e)"

section \<open>The outside world\<close>

text \<open>
  A path is the list of its components.  \<open>path_name\<close> is \<open>Path.name\<close>,
  \<open>path_parent\<close> is \<open>Path.parent\<close>.
\<close>

type_synonym path = "pystr list"

definition path_name :: "path \<Rightarrow> pystr" where
  "path_name p = (if p = [] then [] else last p)"

definition path_parent :: "path \<Rightarrow> path" where
  "path_parent p = butlast p"

text \<open>
  Every call that leaves the process happens at one program point of a run: in attempt
  \<open>n\<close> of the loop, or in the regex fallback.  Each point is reached at most once, so what
  the outside answers in a run is a function of the point.
\<close>

datatype gen_id = Attempt int | Fallback

text \<open>
  The prompt builders only format their arguments into two strings; a prompt is
  represented by the builder and the arguments it was made from.
\<close>

datatype prompt =
    InitialPrompt pystr "pystr list" "row list"
  | SyntaxFixPrompt pystr pystr
  | RepairPrompt pystr pystr pystr mismatches
  | FallbackPrompt pystr "pystr list" pystr

record response =
  status_code :: int
  content :: "pystr option"

text \<open>
  What a run finds outside: the environment variables (after \<open>load_dotenv\<close>), the
  path separator of the platform, the fixture files as the libraries read them, the
  answers of the generation endpoint, the compiler, the test subprocess (return code,
  stdout, stderr), the rows the loaded candidate produces or the exception that loading
  and calling it raises, and what printing a line to standard output raises, if
  anything.  \<open>compile\<close> is a function of the code alone: \<open>None\<close> when it compiles,
  the exception otherwise.
\<close>

record env =
  environ :: "string \<rightharpoonup> pystr"
  os_sep :: pystr
  read_csv_headers :: "path \<Rightarrow> error + pystr list"
  open_pdf :: "path \<Rightarrow> error + pdf"
  pdf_text :: "path \<Rightarrow> error + pystr option list"
  post :: "gen_id \<Rightarrow> error + response"
  compile :: "pystr \<Rightarrow> error option"
  pytest :: "gen_id \<Rightarrow> int \<times> pystr \<times> pystr"
  candidate_rows :: "gen_id \<Rightarrow> error + vrow list"
  read_csv_rows :: "path \<Rightarrow> error + vrow list"
  print_error :: "pystr \<Rightarrow> error option"

text \<open>
  What a run does to the outside: the files it writes, and in order the external actions
  it takes.  Of the messages printed to the terminal, the two that announce success are
  modelled, each the only statement between a passing test run and \<open>sys.exit(0)\<close>;
  the other messages are left out.  Writing a file and creating a directory succeed;
  what the test subprocess and the loaded candidate do to the disk is not part of the
  world.
\<close>

datatype event =
    ReadHeaders path
  | OpenPdf path
  | Generate gen_id prompt
  | SyntaxCheck pystr
  | Mkdir path
  | WriteFile path pystr
  | RunTests
  | LoadCandidate path

record world =
  files :: "path \<rightharpoonup> pystr"
  trace :: "event list"

datatype outcome = Exit int | Uncaught error | Finished

text \<open>The exit status of the process: an uncaught exception ends it with status 1, a
  normal return from \<open>main\<close> with status 0.\<close>

fun exit_code :: "outcome \<Rightarrow> int" where
  "exit_code (Exit n) = n"
| "exit_code (Uncaught e) = 1"
| "exit_code Finished = 0"

text \<open>
  An exception that nothing catches ends the process: \<open>SystemExit\<close> as the exit it
  asks for, any other as an uncaught exception.
\<close>

fun propagate :: "error \<Rightarrow> outcome" where
  "propagate (SystemExit n) = Exit n"
| "propagate e = Uncaught e"

definition emit :: "event \<Rightarrow> world \<Rightarrow> world" where
  "emit ev w = w\<lparr>trace := trace w @ [ev]\<rparr>"

definition mkdir :: "path \<Rightarrow> world \<Rightarrow> world" where
  "mkdir p w = emit (Mkdir p) w"

definition write_text :: "path \<Rightarrow> pystr \<Rightarrow> world \<Rightarrow> world" where
  "write_text p c w = emit (WriteFile p c) (w\<lparr>files := (files w)(p \<mapsto> c)\<rparr>)"

section \<open>Configuration\<close>

record bank_cfg =
  cfg_sample_pdf :: path
  cfg_expected_csv :: path
  cfg_parser_path :: path
  cfg_max_attempts :: "int option"

definition BANK_CONFIG :: "pystr \<rightharpoonup> bank_cfg" where
  "BANK_CONFIG =
     [py ''icici'' \<mapsto>
        \<lparr>cfg_sample_pdf = [py ''data'', py ''icici'', py ''icici_sample.pdf''],
         cfg_expected_csv = [py ''data'', py ''icici'', py ''icici_expected.csv''],
         cfg_parser_path = [py ''custom_parsers'', py ''icici_parser.py''],
         cfg_max_attempts = Some 3\<rparr>]"

text \<open>The local variables of \<open>main\<close> that the loop reads.\<close>

record locals =
  target :: pystr
  sample_pdf :: path
  expected_csv :: path
  parser_path :: path
  max_attempts :: int
  headers :: "pystr list"

section \<open>Utilities and the generation client\<close>

definition load_expected_headers :: "env \<Rightarrow> path \<Rightarrow> error + pystr list" where
  "load_expected_headers E csv_path = read_csv_headers E csv_path"

text \<open>\<open>run_tests\<close>: passed when the return code is 0; the output is stdout, a newline,
  stderr.\<close>

definition run_tests :: "env \<Rightarrow> gen_id \<Rightarrow> bool \<times> pystr" where
  "run_tests E g = (case pytest E g of (returncode, out, err) \<Rightarrow> (returncode = 0, out @ [10] @ err))"

text \<open>\<open>call_groq\<close>: a status other than 200 raises RuntimeError; a response without the
  expected fields raises as well.\<close>

definition call_groq :: "env \<Rightarrow> gen_id \<Rightarrow> error + pystr" where
  "call_groq E g =
     (case post E g of
        Inl e \<Rightarrow> Inl e
      | Inr resp \<Rightarrow>
          if status_code resp \<noteq> 200 then Inl RuntimeError
          else (case content resp of None \<Rightarrow> Inl OtherError | Some t \<Rightarrow> Inr t))"

section \<open>The controller\<close>

text \<open>\<open>Path(f"tests/test_{args.target}.py")\<close>; the target is a key of the
  configuration table and holds no separator.\<close>

definition test_file :: "pystr \<Rightarrow> path" where
  "test_file args_target = [py ''tests'', py ''test_'' @ args_target @ py ''.py'']"

definition quarantine_path :: "locals \<Rightarrow> path" where
  "quarantine_path v = [py ''artifacts'', path_name (parser_path v)]"

fun join :: "pystr \<Rightarrow> pystr list \<Rightarrow> pystr" where
  "join sep [] = []"
| "join sep [x] = x"
| "join sep (x # y # ys) = x @ sep @ join sep (y # ys)"

text \<open>The text of the companion test, from the template in \<open>main\<close>; \<open>os_sep\<close> is the
  separator with which the platform prints a path.\<close>

definition test_code :: "env \<Rightarrow> locals \<Rightarrow> pystr" where
  "test_code E v =
     strip (concat
       [[10], py ''import pandas as pd'', [10],
        py ''from custom_parsers.'', target v, py ''_parser import parse'', [10],
        [10],
        py ''def test_parser():'', [10],
        py ''    df = parse(r'', [34], join (os_sep E) (sample_pdf v), [34], py '')'', [10],
        py ''    expected = pd.read_csv(r'', [34], join (os_sep E) (expected_csv v), [34], py '')'', [10],
        py ''    assert df.astype(str).equals(expected.astype(str))'', [10]])"

text \<open>"Ensure test file exists": written only when no file is there.\<close>

definition ensure_test_file :: "env \<Rightarrow> locals \<Rightarrow> world \<Rightarrow> world" where
  "ensure_test_file E v w =
     (if files w (test_file (target v)) = None
      then write_text (test_file (target v)) (test_code E v)
             (mkdir (path_parent (test_file (target v))) w)
      else w)"

text \<open>
  The two success lines, each printed right before \<open>sys.exit(0)\<close>; both start with the
  check mark U+2705.
\<close>

definition tests_passed_line :: pystr where
  "tests_passed_line = [9989] @ py '' Tests passed. Parser generated successfully.''"

definition fallback_passed_line :: pystr where
  "fallback_passed_line = [9989] @ py '' Passed after regex fallback!''"

text \<open>
  The regex fallback, the block under "Max attempts reached" in \<open>main\<close>: the text of all
  pages, one more generation, one syntax check, and if that succeeds one write and one
  test run.  Every branch ends the process.
\<close>

definition regex_fallback :: "env \<Rightarrow> locals \<Rightarrow> world \<Rightarrow> outcome \<times> world" where
  "regex_fallback E v w =
     (let w1 = emit (OpenPdf (sample_pdf v)) w
      in case pdf_text E (sample_pdf v) of
           Inl e \<Rightarrow> (propagate e, w1)
         | Inr texts \<Rightarrow>
             (let full_text = join [10, 10] (map (\<lambda>t. case t of None \<Rightarrow> [] | Some x \<Rightarrow> x) texts);
                  w2 = emit (Generate Fallback
                               (FallbackPrompt (target v) (headers v) (take 5000 full_text))) w1
              in case call_groq E Fallback of
                   Inl e \<Rightarrow> (propagate e, w2)
                 | Inr raw \<Rightarrow>
                     (let code = strip_code_fences raw;
                          w3 = emit (SyntaxCheck code) w2
                      in case compile E code of
                           Some (SyntaxError e) \<Rightarrow> (Exit 1, w3)
                         | Some e \<Rightarrow> (propagate e, w3)
                         | None \<Rightarrow>
                             (let w4 = write_text (parser_path v) code w3;
                                  w5 = emit RunTests w4
                              in if fst (run_tests E Fallback)
                                 then (case print_error E fallback_passed_line of
                                         None \<Rightarrow> (Exit 0, w5)
                                       | Some e \<Rightarrow> (propagate e, w5))
                                 else (Exit 1, w5)))))"

text \<open>
  One iteration of the \<open>for attempt in range(1, max_attempts + 1)\<close> loop.  It ends the
  process (\<open>sys.exit\<close> or an uncaught exception), or goes on to the next attempt with the
  new pair of prompts.  The process also ends when the success line cannot be printed,
  and when loading the candidate for the mismatch rows raises what the \<open>try\<close>
  statement does not catch.
\<close>

datatype step = Stop outcome world | Continue prompt world

definition attempt_body :: "env \<Rightarrow> locals \<Rightarrow> int \<Rightarrow> prompt \<Rightarrow> world \<Rightarrow> step" where
  "attempt_body E v attempt pr w =
     (let w1 = emit (Generate (Attempt attempt) pr) w
      in case call_groq E (Attempt attempt) of
           Inl e \<Rightarrow> Stop (propagate e) w1
         | Inr raw \<Rightarrow>
             (let code = strip_code_fences raw;
                  w2 = emit (SyntaxCheck code) w1
              in case compile E code of
                   Some (SyntaxError e) \<Rightarrow>
                     if attempt = max_attempts v
                     then Stop (Exit 1)
                            (write_text (quarantine_path v) code (mkdir [py ''artifacts''] w2))
                     else Continue (SyntaxFixPrompt e code) w2
                 | Some e \<Rightarrow> Stop (propagate e) w2
                 | None \<Rightarrow>
                     (let w3 = write_text (parser_path v) code
                                 (mkdir (path_parent (parser_path v)) w2);
                          w4 = ensure_test_file E v w3;
                          w5 = emit RunTests w4;
                          (passed, output) = run_tests E (Attempt attempt)
                      in if passed
                         then (case print_error E tests_passed_line of
                                 None \<Rightarrow> Stop (Exit 0) w5
                               | Some e \<Rightarrow> Stop (propagate e) w5)
                         else
                           (let w6 = emit (LoadCandidate (parser_path v)) w5
                            in case extract_mismatches (candidate_rows E (Attempt attempt))
                                      (read_csv_rows E (expected_csv v)) of
                                 Inl e \<Rightarrow> Stop (propagate e) w6
                               | Inr mismatches \<Rightarrow>
                                   if attempt = max_attempts v
                                   then (case regex_fallback E v w6 of (out, w7) \<Rightarrow> Stop out w7)
                                   else Continue
                                          (RepairPrompt (target v) code output mismatches) w6))))"

text \<open>
  The loop, by recursion over the attempts of the range still to run.  When the range is
  used up the loop ends and \<open>main\<close> returns.
\<close>

fun attempt_loop :: "env \<Rightarrow> locals \<Rightarrow> int list \<Rightarrow> prompt \<Rightarrow> world \<Rightarrow> outcome \<times> world" where
  "attempt_loop E v [] pr w = (Finished, w)"
| "attempt_loop E v (attempt # rest) pr w =
     (case attempt_body E v attempt pr w of
        Stop out w' \<Rightarrow> (out, w')
      | Continue pr' w' \<Rightarrow> attempt_loop E v rest pr' w')"

text \<open>\<open>cfg.get("max_attempts", 3)\<close>.\<close>

definition budget :: "bank_cfg \<Rightarrow> int" where
  "budget cfg = (case cfg_max_attempts cfg of Some m \<Rightarrow> m | None \<Rightarrow> 3)"

definition main :: "env \<Rightarrow> pystr \<Rightarrow> world \<Rightarrow> outcome \<times> world" where
  "main E args_target w =
     (case BANK_CONFIG args_target of
        None \<Rightarrow> (Exit 1, w)
      | Some cfg \<Rightarrow>
          (let w1 = emit (ReadHeaders (cfg_expected_csv cfg)) w
           in case load_expected_headers E (cfg_expected_csv cfg) of
                Inl e \<Rightarrow> (propagate e, w1)
              | Inr hs \<Rightarrow>
                  (let w2 = emit (OpenPdf (cfg_sample_pdf cfg)) w1
                   in case open_pdf E (cfg_sample_pdf cfg) of
                        Inl e \<Rightarrow> (propagate e, w2)
                      | Inr pages \<Rightarrow>
                          (case extract_table_preview pages 2 of
                             Inl e \<Rightarrow> (propagate e, w2)
                           | Inr preview \<Rightarrow>
                               (let v = \<lparr>target = args_target,
                                         sample_pdf = cfg_sample_pdf cfg,
                                         expected_csv = cfg_expected_csv cfg,
                                         parser_path = cfg_parser_path cfg,
                                         max_attempts = budget cfg,
                                         headers = hs\<rparr>
                                in attempt_loop E v [1 .. max_attempts v]
                                     (InitialPrompt args_target hs preview) w2)))))"

text \<open>
  The module: the API key is read when the module is loaded, and a missing or empty key
  ends the process before \<open>main\<close> is called.
\<close>

definition program :: "env \<Rightarrow> pystr \<Rightarrow> world \<Rightarrow> outcome \<times> world" where
  "program E args_target w =
     (case environ E ''GROQ_API_KEY'' of
        None \<Rightarrow> (Exit 1, w)
      | Some key \<Rightarrow> if key = [] then (Exit 1, w) else main E args_target w)"

text \<open>A run starts from the files on disk with nothing done yet.\<close>

definition run :: "env \<Rightarrow> pystr \<Rightarrow> (path \<rightharpoonup> pystr) \<Rightarrow> outcome \<times> world" where
  "run E args_target fs = program E args_target \<lparr>files = fs, trace = []\<rparr>"

section \<open>Reading a trace\<close>

text \<open>The program points of the generation calls of a trace, in order.\<close>

fun gen_points :: "event list \<Rightarrow> gen_id list" where
  "gen_points [] = []"
| "gen_points (Generate g p # evs) = g # gen_points evs"
| "gen_points (ev # evs) = gen_points evs"

text \<open>The contents written to one path, in order.\<close>

fun writes_to :: "path \<Rightarrow> event list \<Rightarrow> pystr list" where
  "writes_to p [] = []"
| "writes_to p (WriteFile q c # evs) = (if q = p then c # writes_to p evs else writes_to p evs)"
| "writes_to p (ev # evs) = writes_to p evs"

fun step_world :: "step \<Rightarrow> world" where
  "step_world (Stop out w) = w"
| "step_world (Continue pr w) = w"


text \<open>The companion test has been written at most once, and not at all when the file
  was there before.\<close>

definition test_written_once :: "locals \<Rightarrow> world \<Rightarrow> bool" where
  "test_written_once v w =
     (length (writes_to (test_file (target v)) (trace w))
        + (if files w (test_file (target v)) = None then 1 else 0) \<le> 1)"

definition paths_distinct :: "locals \<Rightarrow> bool" where
  "paths_distinct v =
     (parser_path v \<noteq> test_file (target v) \<and> quarantine_path v \<noteq> test_file (target v)
      \<and> parser_path v \<noteq> quarantine_path v)"

text \<open>
  How the candidate generated at a program point fares: it fails the syntax check, or it
  compiles and the test run fails.
\<close>

definition fails_syntax :: "env \<Rightarrow> gen_id \<Rightarrow> bool" where
  "fails_syntax E g =
     (case call_groq E g of
        Inl e \<Rightarrow> False
      | Inr raw \<Rightarrow>
          (case compile E (strip_code_fences raw) of Some (SyntaxError e) \<Rightarrow> True | _ \<Rightarrow> False))"

definition fails_tests :: "env \<Rightarrow> gen_id \<Rightarrow> bool" where
  "fails_tests E g =
     (case call_groq E g of
        Inl e \<Rightarrow> False
      | Inr raw \<Rightarrow> compile E (strip_code_fences raw) = None \<and> \<not> fst (run_tests E g))"


text \<open>
  After a failed test run the controller loads the candidate for the mismatch rows.  The
  mismatch extraction returns to the controller unless an exception leaves its \<open>try\<close>
  statement.
\<close>

definition diagnosed :: "env \<Rightarrow> path \<Rightarrow> gen_id \<Rightarrow> bool" where
  "diagnosed E csv g =
     (case extract_mismatches (candidate_rows E g) (read_csv_rows E csv) of
        Inl e \<Rightarrow> False
      | Inr m \<Rightarrow> True)"

text \<open>
  The candidate of a program point fails validation and the process goes on: it fails the
  syntax check, or it fails the tests and the mismatch extraction returns.
\<close>

definition fails_and_goes_on :: "env \<Rightarrow> path \<Rightarrow> gen_id \<Rightarrow> bool" where
  "fails_and_goes_on E csv g = (fails_syntax E g \<or> (fails_tests E g \<and> diagnosed E csv g))"

section \<open>Invariants of the preview loops\<close>

definition good_row :: "row \<Rightarrow> bool" where
  "good_row r = (None \<notin> set r \<and> (\<exists>s. Some s \<in> set r \<and> strip s \<noteq> []))"

definition preview_inv :: "int \<Rightarrow> row list \<Rightarrow> bool" where
  "preview_inv lim rows = (list_all good_row rows \<and> (rows = [] \<or> int (length rows) < lim))"

fun flow_ok :: "int \<Rightarrow> row list flow \<Rightarrow> bool" where
  "flow_ok lim (Raised e) = False"
| "flow_ok lim (Returned rows) = (list_all good_row rows \<and> int (length rows) \<le> max 1 lim)"
| "flow_ok lim (Running rows) = preview_inv lim rows"

section \<open>Example environments\<close>

text \<open>
  An environment in which every generation call answers \<open>raw\<close>, only the text
  \<open>import pandas\<close> compiles, and every test run ends with the given return code.  The
  sample document has no pages, loading a candidate raises an exception that the \<open>try\<close>
  statement catches, and every line can be printed.
\<close>

definition example_env :: "pystr \<Rightarrow> int \<Rightarrow> env" where
  "example_env raw returncode =
     \<lparr>environ = [''GROQ_API_KEY'' \<mapsto> py ''key''],
      os_sep = py ''/'',
      read_csv_headers = (\<lambda>p. Inr [py ''Date'', py ''Balance'']),
      open_pdf = (\<lambda>p. Inr []),
      pdf_text = (\<lambda>p. Inr []),
      post = (\<lambda>g. Inr \<lparr>status_code = 200, content = Some raw\<rparr>),
      compile = (\<lambda>c. if c = py ''import pandas'' then None
                       else Some (SyntaxError (py ''invalid syntax''))),
      pytest = (\<lambda>g. (returncode, [], [])),
      candidate_rows = (\<lambda>g. Inl OtherError),
      read_csv_rows = (\<lambda>p. Inl OtherError),
      print_error = (\<lambda>s. None)\<rparr>"

text \<open>
  A variant: every reply is \<open>import pandas\<close>, every test run fails, and loading the
  candidate of the third attempt raises \<open>SystemExit\<close> with status 0, as a module that
  calls \<open>sys.exit()\<close> at its top level does.
\<close>

definition exiting_candidate_env :: env where
  "exiting_candidate_env =
     (example_env (py ''import pandas'') 1)
       \<lparr>candidate_rows := (\<lambda>g. if g = Attempt 3 then Inl (SystemExit 0) else Inl OtherError)\<rparr>"


section \<open>States and prompts along one attempt\<close>

text \<open>
  Names for the worlds an attempt passes through: after the generation call and the
  syntax check, after the candidate is persisted and the tests are run, and after the
  mismatch extraction has loaded the candidate.
\<close>

definition after_check :: "int \<Rightarrow> prompt \<Rightarrow> pystr \<Rightarrow> world \<Rightarrow> world" where
  "after_check a pr code w = emit (SyntaxCheck code) (emit (Generate (Attempt a) pr) w)"

definition after_tests :: "env \<Rightarrow> locals \<Rightarrow> int \<Rightarrow> prompt \<Rightarrow> pystr \<Rightarrow> world \<Rightarrow> world" where
  "after_tests E v a pr code w =
     emit RunTests (ensure_test_file E v
       (write_text (parser_path v) code
          (mkdir (path_parent (parser_path v)) (after_check a pr code w))))"

definition after_mismatches :: "env \<Rightarrow> locals \<Rightarrow> int \<Rightarrow> prompt \<Rightarrow> pystr \<Rightarrow> world \<Rightarrow> world" where
  "after_mismatches E v a pr code w = emit (LoadCandidate (parser_path v)) (after_tests E v a pr code w)"

definition fallback_prompt :: "locals \<Rightarrow> pystr option list \<Rightarrow> prompt" where
  "fallback_prompt v texts =
     FallbackPrompt (target v) (headers v)
       (take 5000 (join [10, 10] (map (\<lambda>t. case t of None \<Rightarrow> [] | Some x \<Rightarrow> x) texts)))"

definition fallback_checked :: "locals \<Rightarrow> pystr option list \<Rightarrow> pystr \<Rightarrow> world \<Rightarrow> world" where
  "fallback_checked v texts code w =
     emit (SyntaxCheck code) (emit (Generate Fallback (fallback_prompt v texts))
       (emit (OpenPdf (sample_pdf v)) w))"

definition repair_prompt :: "env \<Rightarrow> locals \<Rightarrow> int \<Rightarrow> pystr \<Rightarrow> mismatches \<Rightarrow> prompt" where
  "repair_prompt E v a code m = RepairPrompt (target v) code (snd (run_tests E (Attempt a))) m"

text \<open>The local variables of \<open>main\<close> when the loop starts, and the world at that
  moment: both fixtures have been read.\<close>

definition main_locals :: "pystr \<Rightarrow> bank_cfg \<Rightarrow> pystr list \<Rightarrow> locals" where
  "main_locals t cfg hs =
     \<lparr>target = t, sample_pdf = cfg_sample_pdf cfg, expected_csv = cfg_expected_csv cfg,
      parser_path = cfg_parser_path cfg, max_attempts = budget cfg, headers = hs\<rparr>"

definition loaded :: "bank_cfg \<Rightarrow> (path \<rightharpoonup> pystr) \<Rightarrow> world" where
  "loaded cfg fs =
     \<lparr>files = fs, trace = [ReadHeaders (cfg_expected_csv cfg), OpenPdf (cfg_sample_pdf cfg)]\<rparr>"

section \<open>Example inputs\<close>

text \<open>A reply with a fenced block and commentary after it.\<close>

definition fenced_reply :: pystr where
  "fenced_reply =
     replicate 3 96 @ py ''python'' @ [10] @ py ''x = 1'' @ [10] @ replicate 3 96 @ [10]
       @ py ''Done.''"

text \<open>Documents of one page with one table.\<close>

definition one_row_pdf :: pdf where
  "one_row_pdf = [[[[Some (py ''a'')]]]]"

text \<open>
  An environment whose standard output encodes code points up to 255 only, as under
  \<open>PYTHONIOENCODING=latin-1\<close>: printing any other character raises
  UnicodeEncodeError.  The sample document is the one above, so that the preview is not
  empty; every reply is \<open>import pandas\<close> and every test run passes.
\<close>

definition narrow_stdout_env :: env where
  "narrow_stdout_env =
     (example_env (py ''import pandas'') 0)
       \<lparr>open_pdf := (\<lambda>p. Inr one_row_pdf),
        print_error := (\<lambda>s. if list_ex (\<lambda>c. 255 < c) s then Some UnicodeEncodeError
                             else None)\<rparr>"

text \<open>
  Expected and actual rows that differ as they are and are the same once turned into
  strings: the expected row holds a NaN where the actual row holds the string \<open>nan\<close>.
\<close>

definition nan_expected :: "vrow list" where
  "nan_expected = [[PyStr (py ''a''), PyNaN 0]]"

definition nan_actual :: "vrow list" where
  "nan_actual = [[PyStr (py ''a''), PyStr (py ''nan'')]]"

definition three_row_pdf :: pdf where
  "three_row_pdf = [[[[Some (py ''a''), None], [None, Some (py '' '')], [Some (py ''b'')]]]]"

section \<open>Properties of the sanitizer\<close>

lemma findall_literal_elems: "x \<in> set (findall_literal pat s) \<Longrightarrow> x = pat"
  by (induction pat s rule: findall_literal.induct) (auto split: if_splits)

lemma findall_literal_Nil_iff:
  "pat \<noteq> [] \<Longrightarrow> findall_literal pat s = [] \<longleftrightarrow> \<not> sublist pat s"
proof (induction pat s rule: findall_literal.induct)
  case (1 pat)
  then show ?case by simp
next
  case (2 pat c cs)
  show ?case
  proof (cases "prefix pat (c # cs)")
    case True
    then show ?thesis by (auto dest: prefix_imp_sublist)
  next
    case False
    with 2 show ?thesis by (simp add: sublist_Cons_right)
  qed
qed

lemma sublist_dropWhile: "sublist (dropWhile P s) s"
  by (metis suffix_dropWhile suffix_imp_sublist)

lemma sublist_strip: "sublist (strip s) s"
proof -
  have "sublist (rev (dropWhile isspace (rev t))) t" for t
    by (metis sublist_dropWhile sublist_rev_left)
  then show ?thesis
    unfolding strip_def rstrip_def lstrip_def
    by (meson sublist_dropWhile sublist_order.order_trans)
qed

lemma rstrip_keeps_hd:
  "t \<noteq> [] \<Longrightarrow> \<not> isspace (hd t) \<Longrightarrow> rstrip t \<noteq> [] \<and> hd (rstrip t) = hd t"
proof (induction t rule: rev_induct)
  case Nil
  then show ?case by simp
next
  case (snoc x xs)
  then show ?case
    by (cases xs) (auto simp: rstrip_def)
qed

lemma lstrip_rstrip_lstrip: "lstrip (rstrip (lstrip s)) = rstrip (lstrip s)"
proof (cases "lstrip s = []")
  case True
  have "lstrip (rstrip []) = rstrip []" by (simp add: rstrip_def lstrip_def)
  with True show ?thesis by simp
next
  case False
  then have nsp: "\<not> isspace (hd (lstrip s))"
    unfolding lstrip_def by (simp add: hd_dropWhile)
  with False have "rstrip (lstrip s) \<noteq> [] \<and> hd (rstrip (lstrip s)) = hd (lstrip s)"
    by (rule rstrip_keeps_hd)
  with nsp show ?thesis
    unfolding lstrip_def by (cases "rstrip (dropWhile isspace s)") auto
qed

lemma rstrip_idem: "rstrip (rstrip t) = rstrip t"
  by (simp add: rstrip_def)

lemma strip_idem: "strip (strip s) = strip s"
  by (simp add: strip_def lstrip_rstrip_lstrip rstrip_idem)

lemma strip_Nil: "strip [] = []"
  by (simp add: strip_def lstrip_def rstrip_def)

lemma fence_pattern_unfold: "fence_pattern = [96, 96, 96, 96, 96, 96]"
  by (simp add: fence_pattern_def numeral_eq_Suc)

lemma strip_fence: "strip fence_pattern = fence_pattern"
  by (simp add: strip_def lstrip_def rstrip_def fence_pattern_unfold isspace_def)

lemma findall_fence: "findall_literal fence_pattern fence_pattern = [fence_pattern]"
  by (simp add: fence_pattern_unfold)

lemma strip_no_space:
  assumes "s \<noteq> []" "\<not> isspace (hd s)" "\<not> isspace (last s)"
  shows "strip s = s"
proof -
  from assms have l: "lstrip s = s" by (cases s) (simp_all add: lstrip_def)
  from assms have "dropWhile isspace (rev s) = rev s"
    by (cases "rev s") (simp_all add: last_rev [symmetric] hd_rev)
  then have "rstrip s = s" by (simp add: rstrip_def)
  with l show ?thesis by (simp add: strip_def)
qed

lemma strip_code_fences_unfenced:
  assumes "\<not> sublist fence_pattern t"
  shows "strip_code_fences t = strip t"
proof -
  have "fence_pattern \<noteq> []" by (simp add: fence_pattern_def)
  with assms have "findall_literal fence_pattern t = []"
    by (simp add: findall_literal_Nil_iff)
  then show ?thesis by (simp add: strip_code_fences_def)
qed

lemma fenced_reply_unfold:
  "fenced_reply = [96, 96, 96, 112, 121, 116, 104, 111, 110, 10, 120, 32, 61, 32, 49, 10,
                   96, 96, 96, 10, 68, 111, 110, 101, 46]"
  by (simp add: fenced_reply_def py_def numeral_3_eq_3)

lemma fenced_reply_unfenced: "\<not> sublist fence_pattern fenced_reply"
  by (simp add: fenced_reply_unfold fence_pattern_unfold sublist_Cons_right)

lemma import_unfold:
  "py ''import pandas'' = [105, 109, 112, 111, 114, 116, 32, 112, 97, 110, 100, 97, 115]"
  by (simp add: py_def)

lemma strip_code_fences_import: "strip_code_fences (py ''import pandas'') = py ''import pandas''"
proof -
  have "\<not> sublist fence_pattern (py ''import pandas'')"
    by (simp add: import_unfold fence_pattern_unfold sublist_Cons_right)
  moreover have "strip (py ''import pandas'') = py ''import pandas''"
    by (rule strip_no_space) (simp_all add: import_unfold isspace_def)
  ultimately show ?thesis by (simp add: strip_code_fences_unfenced)
qed


text \<open>
  Claim C1, at a reply that holds a fenced code block and commentary outside it: three
  backticks, \<open>python\<close>, the line \<open>x = 1\<close>, three backticks, and the line \<open>Done.\<close>.
  The pattern of the source matches six backticks in a row only, so no block is found
  and the sanitizer returns the whole reply, fences and commentary included, not the
  contents \<open>x = 1\<close> of the block.
\<close>

theorem fenced_reply_kept_whole:
  "strip_code_fences fenced_reply = fenced_reply
   \<and> strip_code_fences fenced_reply \<noteq> py ''x = 1''"
proof -
  have "strip fenced_reply = fenced_reply"
    by (rule strip_no_space) (simp_all add: fenced_reply_unfold isspace_def)
  then have "strip_code_fences fenced_reply = fenced_reply"
    by (simp add: strip_code_fences_unfenced fenced_reply_unfenced)
  then show ?thesis by (simp add: fenced_reply_unfold py_def)
qed

text \<open>
  Claim C6.  Sanitization is idempotent: sanitizing the output of the sanitizer returns
  that output unchanged, for every text.
\<close>

theorem strip_code_fences_idempotent:
  "strip_code_fences (strip_code_fences t) = strip_code_fences t"
proof (cases "findall_literal fence_pattern t")
  case Nil
  have ne: "fence_pattern \<noteq> []" by (simp add: fence_pattern_def)
  from Nil have "\<not> sublist fence_pattern t"
    using findall_literal_Nil_iff [OF ne] by simp
  then have "\<not> sublist fence_pattern (strip t)"
    using sublist_strip sublist_order.order_trans by blast
  then have "findall_literal fence_pattern (strip t) = []"
    using findall_literal_Nil_iff [OF ne] by simp
  with Nil show ?thesis
    by (simp add: strip_code_fences_def strip_idem)
next
  case (Cons b bs)
  then have "b = fence_pattern"
    using findall_literal_elems [of b fence_pattern t] by simp
  with Cons show ?thesis
    by (simp add: strip_code_fences_def strip_fence findall_fence)
qed

text \<open>The idempotence at the reply above.\<close>

theorem strip_code_fences_idempotent_witness:
  "strip_code_fences (strip_code_fences fenced_reply) = strip_code_fences fenced_reply"
  by (rule strip_code_fences_idempotent)

section \<open>Properties of the table preview\<close>

lemma clean_cell_Some: "clean_cell c \<noteq> None"
  by (cases c) auto

lemma clean_cell_not_None: "None \<notin> set (map clean_cell r)"
  by (induction r) (auto simp: clean_cell_Some [symmetric])

lemma any_strip_clean:
  "any_strip (map clean_cell r) = Inr (\<exists>s. Some s \<in> set (map clean_cell r) \<and> strip s \<noteq> [])"
proof (induction r)
  case Nil
  show ?case by simp
next
  case (Cons c r)
  then show ?case
    by (cases c) (auto simp: strip_Nil)
qed

lemma scan_rows_ok:
  "preview_inv lim acc \<Longrightarrow> flow_ok lim (scan_rows lim rs acc)"
proof (induction rs arbitrary: acc)
  case Nil
  then show ?case by simp
next
  case (Cons r rs)
  let ?c = "map clean_cell r"
  show ?case
  proof (cases "\<exists>s. Some s \<in> set ?c \<and> strip s \<noteq> []")
    case False
    then have "any_strip ?c = Inr False" using any_strip_clean [of r] by simp
    with Cons show ?thesis by simp
  next
    case True
    then have a: "any_strip ?c = Inr True" using any_strip_clean [of r] by simp
    from True have g: "good_row ?c"
      unfolding good_row_def using clean_cell_not_None [of r] by blast
    show ?thesis
    proof (cases "int (length (acc @ [?c])) \<ge> lim")
      case True
      with a g Cons.prems show ?thesis
        by (auto simp: preview_inv_def)
    next
      case False
      with g Cons.prems have "preview_inv lim (acc @ [?c])"
        by (auto simp: preview_inv_def)
      with a False Cons.IH show ?thesis by simp
    qed
  qed
qed

lemma scan_tables_ok:
  "preview_inv lim acc \<Longrightarrow> flow_ok lim (scan_tables lim ts acc)"
proof (induction ts arbitrary: acc)
  case Nil
  then show ?case by simp
next
  case (Cons t ts)
  from Cons.prems have "flow_ok lim (scan_rows lim t acc)" by (rule scan_rows_ok)
  with Cons.IH show ?case
    by (cases "scan_rows lim t acc") auto
qed

lemma scan_pages_ok:
  "preview_inv lim acc \<Longrightarrow> flow_ok lim (scan_pages lim pages idxs acc)"
proof (induction idxs arbitrary: acc)
  case Nil
  then show ?case by simp
next
  case (Cons i idxs)
  let ?ts = "pages ! nat i"
  from Cons.prems have "flow_ok lim (scan_tables lim ?ts acc)" by (rule scan_tables_ok)
  with Cons show ?case
    by (cases "scan_tables lim ?ts acc") (auto simp: Let_def)
qed

lemma card_candidate_pages:
  "1 \<le> card (candidate_pages pages) \<and> card (candidate_pages pages) \<le> 3"
proof -
  let ?t = "int (length pages)"
  have "card {0, ?t div 2, ?t - 1} \<le> 3"
    by (simp add: card_insert_if)
  moreover have "card {0, ?t div 2, ?t - 1} \<noteq> 0" by simp
  then have "1 \<le> card {0, ?t div 2, ?t - 1}" by linarith
  ultimately show ?thesis by (simp add: candidate_pages_def Let_def)
qed

lemma extract_table_preview_total:
  "\<exists>rows. extract_table_preview pages sps = Inr rows \<and> list_all good_row rows
      \<and> int (length rows) \<le> max 1 (sps * int (card (candidate_pages pages)))"
proof -
  let ?lim = "sps * int (card (candidate_pages pages))"
  let ?f = "scan_pages ?lim pages (sorted_list_of_set (candidate_pages pages)) []"
  have "preview_inv ?lim []" by (simp add: preview_inv_def)
  then have "flow_ok ?lim ?f" by (rule scan_pages_ok)
  then show ?thesis
    by (cases ?f) (auto simp: extract_table_preview_def preview_inv_def)
qed

text \<open>
  Claim C10, as the code has it.  For every document and every \<open>samples_per_section\<close>
  the preview extractor returns without raising; every returned row has no \<open>None\<close> cell
  and at least one cell with non-whitespace content; there are at most 3 candidate
  pages; and when \<open>samples_per_section\<close> is at least 1 the number of rows is at most
  \<open>samples_per_section\<close> times the number of candidate pages, so at most 6 at the
  default of 2.  For a \<open>samples_per_section\<close> of 0 or less the bound is one row: the
  limit is tested only after a row has been appended.
\<close>

theorem preview_bounded:
  "\<exists>rows. extract_table_preview pages sps = Inr rows
     \<and> (\<forall>r \<in> set rows. None \<notin> set r \<and> (\<exists>s. Some s \<in> set r \<and> strip s \<noteq> []))
     \<and> int (length rows) \<le> max 1 (sps * int (card (candidate_pages pages)))
     \<and> (1 \<le> sps \<longrightarrow> int (length rows) \<le> sps * int (card (candidate_pages pages)))
     \<and> card (candidate_pages pages) \<le> 3
     \<and> (sps = 2 \<longrightarrow> length rows \<le> 6)"
proof -
  obtain rows where r: "extract_table_preview pages sps = Inr rows" "list_all good_row rows"
    "int (length rows) \<le> max 1 (sps * int (card (candidate_pages pages)))"
    using extract_table_preview_total by blast
  have c: "1 \<le> card (candidate_pages pages)" "card (candidate_pages pages) \<le> 3"
    using card_candidate_pages by auto
  have b1: "int (length rows) \<le> sps * int (card (candidate_pages pages))" if "1 \<le> sps"
  proof -
    from that c(1) have "1 * 1 \<le> sps * int (card (candidate_pages pages))"
      by (intro mult_mono) auto
    with r(3) show ?thesis by simp
  qed
  have b2: "length rows \<le> 6" if "sps = 2"
    using b1 that c(2) by simp
  from r(2) have "\<forall>r \<in> set rows. None \<notin> set r \<and> (\<exists>s. Some s \<in> set r \<and> strip s \<noteq> [])"
    by (simp add: list_all_iff good_row_def)
  with r(1,3) b1 b2 c(2) show ?thesis by blast
qed

text \<open>The bound at a page whose table has three rows, one of them blank.\<close>

theorem preview_bounded_witness:
  "\<exists>rows. extract_table_preview three_row_pdf 2 = Inr rows \<and> length rows \<le> 6
     \<and> int (length rows) \<le> 2 * int (card (candidate_pages three_row_pdf))"
  using preview_bounded [of three_row_pdf 2] by auto

text \<open>
  With \<open>samples_per_section = 0\<close> and a one-page document whose table has one row, the
  extractor returns that row: one row, more than 0 times the number of candidate pages.
\<close>

theorem preview_exceeds_zero_limit:
  "extract_table_preview one_row_pdf 0 = Inr [[Some (py ''a'')]]
   \<and> 0 * int (card (candidate_pages one_row_pdf)) < int (length [[Some (py ''a'')]])"
  by (simp add: one_row_pdf_def extract_table_preview_def candidate_pages_def strip_def
        lstrip_def rstrip_def isspace_def py_def)

section \<open>Properties of mismatch extraction\<close>

lemma zip_fst_snd: "zip (map f xs) (map g xs) = map (\<lambda>t. (f t, g t)) xs"
  by (induction xs) auto

lemma try_mismatches_pairs:
  "try_mismatches (Inr act) (Inr exp) =
     Inr \<lparr>expected = map (\<lambda>t. map py_str (fst t)) (take 5 (mismatched exp act)),
          actual = map (\<lambda>t. map py_str (snd t)) (take 5 (mismatched exp act))\<rparr>"
  by (simp add: try_mismatches_def)

lemma try_mismatches_lengths:
  "try_mismatches df_actual df_expected = Inr m
     \<Longrightarrow> length (expected m) \<le> 5 \<and> length (actual m) \<le> 5"
  by (cases df_actual; cases df_expected) (auto simp: try_mismatches_def)

lemma extract_mismatches_cases:
  "(case extract_mismatches df_actual df_expected of
      Inl e \<Rightarrow> True
    | Inr m \<Rightarrow> length (expected m) \<le> 5 \<and> length (actual m) \<le> 5)"
proof (cases "try_mismatches df_actual df_expected")
  case (Inl e)
  then show ?thesis by (simp add: extract_mismatches_def)
next
  case (Inr m)
  with try_mismatches_lengths [OF Inr] show ?thesis by (simp add: extract_mismatches_def)
qed

lemma same_element_PyStr: "list_all2 same_element (map PyStr e) (map PyStr a) \<longleftrightarrow> e = a"
  by (simp add: list_all2_map1 list_all2_map2 list_all2_eq [symmetric])

lemma mismatched_strings:
  "mismatched (map (map PyStr) sexp) (map (map PyStr) sact) =
     map (\<lambda>(e, a). (map PyStr e, map PyStr a)) (filter (\<lambda>(e, a). e \<noteq> a) (zip sexp sact))"
proof (induction sexp arbitrary: sact)
  case Nil
  show ?case by (simp add: mismatched_def)
next
  case (Cons e es)
  show ?case
  proof (cases sact)
    case Nil
    then show ?thesis by (simp add: mismatched_def)
  next
    case (Cons a as)
    with Cons.IH [of as] show ?thesis
      by (simp add: mismatched_def rows_differ_def same_element_PyStr)
  qed
qed

lemma py_str_PyStr: "map (py_str \<circ> PyStr) e = e"
  by (induction e) auto

text \<open>
  Claim C4.  Whatever the expected and the actual rows are, and also when reading either
  of them raises, mismatch extraction returns at most 5 expected rows and at most 5
  actual rows, unless an exception leaves it and nothing is returned.  When both sets of rows are read, the
  pairs returned are, turned into strings, the first 5 pairs of rows at the same position
  that differ as the code compares them, in order.  Where all cells are strings these
  are the first 5 pairs of differing rows themselves.
\<close>

theorem mismatches_at_most_five:
  "(case extract_mismatches df_actual df_expected of
      Inl e \<Rightarrow> True
    | Inr m \<Rightarrow> length (expected m) \<le> 5 \<and> length (actual m) \<le> 5)
   \<and> (\<exists>m. extract_mismatches (Inr act) (Inr exp) = Inr m
         \<and> zip (expected m) (actual m) =
             map (\<lambda>(er, ar). (map py_str er, map py_str ar))
               (take 5 (filter (\<lambda>(er, ar). rows_differ er ar) (zip exp act))))
   \<and> (\<exists>m. extract_mismatches (Inr (map (map PyStr) sact)) (Inr (map (map PyStr) sexp)) = Inr m
         \<and> zip (expected m) (actual m) = take 5 (filter (\<lambda>(er, ar). er \<noteq> ar) (zip sexp sact)))"
proof (intro conjI)
  show "(case extract_mismatches df_actual df_expected of
      Inl e \<Rightarrow> True
    | Inr m \<Rightarrow> length (expected m) \<le> 5 \<and> length (actual m) \<le> 5)"
    by (rule extract_mismatches_cases)
next
  have "(\<lambda>t. (map py_str (fst t), map py_str (snd t)))
          = (\<lambda>(er, ar). (map py_str er, map py_str ar))"
    by (simp add: fun_eq_iff)
  then show "\<exists>m. extract_mismatches (Inr act) (Inr exp) = Inr m
         \<and> zip (expected m) (actual m) =
             map (\<lambda>(er, ar). (map py_str er, map py_str ar))
               (take 5 (filter (\<lambda>(er, ar). rows_differ er ar) (zip exp act)))"
    by (simp add: extract_mismatches_def try_mismatches_pairs zip_fst_snd mismatched_def)
next
  show "\<exists>m. extract_mismatches (Inr (map (map PyStr) sact)) (Inr (map (map PyStr) sexp)) = Inr m
         \<and> zip (expected m) (actual m) = take 5 (filter (\<lambda>(er, ar). er \<noteq> ar) (zip sexp sact))"
    by (simp add: extract_mismatches_def try_mismatches_pairs zip_fst_snd mismatched_strings
          take_map case_prod_beta py_str_PyStr)
qed

text \<open>
  At an expected row that holds a NaN in the second cell and an actual row \<open>a, nan\<close>
  of strings, the rows differ as they are compared, and the pair returned holds the same
  strings on both sides.
\<close>

theorem mismatches_at_most_five_witness:
  "\<exists>m. extract_mismatches (Inr nan_actual) (Inr nan_expected) = Inr m
     \<and> zip (expected m) (actual m) = [([py ''a'', py ''nan''], [py ''a'', py ''nan''])]"
  using mismatches_at_most_five [of "Inr nan_actual" "Inr nan_expected" nan_actual nan_expected]
  by (simp add: nan_actual_def nan_expected_def rows_differ_def)

section \<open>Properties of the controller\<close>

lemma gen_points_append: "gen_points (xs @ ys) = gen_points xs @ gen_points ys"
  by (induction xs rule: gen_points.induct) auto

lemma writes_to_append: "writes_to p (xs @ ys) = writes_to p xs @ writes_to p ys"
  by (induction p xs rule: writes_to.induct) auto

lemma emit_simps: "trace (emit ev w) = trace w @ [ev]" "files (emit ev w) = files w"
  by (simp_all add: emit_def)

lemma mkdir_simps: "trace (mkdir p w) = trace w @ [Mkdir p]" "files (mkdir p w) = files w"
  by (simp_all add: mkdir_def emit_def)

lemma write_text_simps:
  "trace (write_text p c w) = trace w @ [WriteFile p c]"
  "files (write_text p c w) = (files w)(p \<mapsto> c)"
  by (simp_all add: write_text_def emit_def)

lemma ensure_test_file_trace:
  "trace (ensure_test_file E v w) =
     trace w @ (if files w (test_file (target v)) = None
                then [Mkdir (path_parent (test_file (target v))),
                      WriteFile (test_file (target v)) (test_code E v)]
                else [])"
  by (simp add: ensure_test_file_def write_text_simps mkdir_simps)

lemma ensure_test_file_files:
  "files (ensure_test_file E v w) =
     (if files w (test_file (target v)) = None
      then (files w)(test_file (target v) \<mapsto> test_code E v) else files w)"
  by (simp add: ensure_test_file_def write_text_simps mkdir_simps)

lemmas world_simps = emit_simps mkdir_simps write_text_simps ensure_test_file_trace
  ensure_test_file_files gen_points_append writes_to_append


subsection \<open>The fallback, branch by branch\<close>

lemma fallback_text_error:
  "pdf_text E (sample_pdf v) = Inl e
     \<Longrightarrow> regex_fallback E v w = (propagate e, emit (OpenPdf (sample_pdf v)) w)"
  by (simp add: regex_fallback_def)

lemma fallback_gen_error:
  "pdf_text E (sample_pdf v) = Inr texts \<Longrightarrow> call_groq E Fallback = Inl e
     \<Longrightarrow> regex_fallback E v w =
         (propagate e, emit (Generate Fallback (fallback_prompt v texts))
                        (emit (OpenPdf (sample_pdf v)) w))"
  by (simp add: regex_fallback_def fallback_prompt_def)

lemma fallback_not_compiled:
  "pdf_text E (sample_pdf v) = Inr texts \<Longrightarrow> call_groq E Fallback = Inr raw
     \<Longrightarrow> compile E (strip_code_fences raw) = Some e
     \<Longrightarrow> regex_fallback E v w =
         ((case e of SyntaxError m \<Rightarrow> Exit 1 | _ \<Rightarrow> propagate e),
          fallback_checked v texts (strip_code_fences raw) w)"
  by (cases e) (simp_all add: regex_fallback_def fallback_prompt_def fallback_checked_def)

lemma fallback_tested:
  "pdf_text E (sample_pdf v) = Inr texts \<Longrightarrow> call_groq E Fallback = Inr raw
     \<Longrightarrow> compile E (strip_code_fences raw) = None
     \<Longrightarrow> regex_fallback E v w =
         ((if fst (run_tests E Fallback)
           then (case print_error E fallback_passed_line of
                   None \<Rightarrow> Exit 0 | Some e \<Rightarrow> propagate e)
           else Exit 1),
          emit RunTests (write_text (parser_path v) (strip_code_fences raw)
            (fallback_checked v texts (strip_code_fences raw) w)))"
  by (simp add: regex_fallback_def fallback_prompt_def fallback_checked_def Let_def
        split: option.split)

lemma regex_fallback_cases:
  obtains (text_error) e where "pdf_text E (sample_pdf v) = Inl e"
  | (gen_error) texts e where "pdf_text E (sample_pdf v) = Inr texts" "call_groq E Fallback = Inl e"
  | (not_compiled) texts raw e where "pdf_text E (sample_pdf v) = Inr texts"
      "call_groq E Fallback = Inr raw" "compile E (strip_code_fences raw) = Some e"
  | (tested) texts raw where "pdf_text E (sample_pdf v) = Inr texts"
      "call_groq E Fallback = Inr raw" "compile E (strip_code_fences raw) = None"
proof (cases "pdf_text E (sample_pdf v)")
  case (Inl e)
  then show ?thesis by (rule text_error)
next
  case texts: (Inr texts)
  show ?thesis
  proof (cases "call_groq E Fallback")
    case (Inl e)
    with texts show ?thesis by (rule gen_error)
  next
    case raw: (Inr raw)
    show ?thesis
    proof (cases "compile E (strip_code_fences raw)")
      case None
      with texts raw show ?thesis by (rule tested)
    next
      case (Some e)
      with texts raw show ?thesis by (rule not_compiled)
    qed
  qed
qed

lemma fallback_checked_simps:
  "trace (fallback_checked v texts code w) =
     trace w @ [OpenPdf (sample_pdf v), Generate Fallback (fallback_prompt v texts), SyntaxCheck code]"
  "files (fallback_checked v texts code w) = files w"
  by (simp_all add: fallback_checked_def emit_simps)


lemma regex_fallback_test_file:
  assumes "parser_path v \<noteq> test_file (target v)"
  shows "files (snd (regex_fallback E v w)) (test_file (target v)) = files w (test_file (target v))
       \<and> writes_to (test_file (target v)) (trace (snd (regex_fallback E v w)))
           = writes_to (test_file (target v)) (trace w)"
proof (cases rule: regex_fallback_cases [where E=E and v=v])
  case (text_error e)
  with assms show ?thesis
    by (simp add: fallback_text_error world_simps)
next
  case (gen_error texts e)
  with assms show ?thesis
    by (simp add: fallback_gen_error world_simps)
next
  case (not_compiled texts raw e)
  with assms show ?thesis
    by (simp add: fallback_not_compiled world_simps fallback_checked_simps)
next
  case (tested texts raw)
  with assms show ?thesis
    by (simp add: fallback_tested world_simps fallback_checked_simps)
qed

lemma regex_fallback_gen_points:
  "gen_points (trace (snd (regex_fallback E v w))) = gen_points (trace w)
    \<or> gen_points (trace (snd (regex_fallback E v w))) = gen_points (trace w) @ [Fallback]"
proof (cases rule: regex_fallback_cases [where E=E and v=v])
  case (text_error e)
  then show ?thesis
    by (simp add: fallback_text_error world_simps)
next
  case (gen_error texts e)
  then show ?thesis
    by (simp add: fallback_gen_error world_simps)
next
  case (not_compiled texts raw e)
  then show ?thesis
    by (simp add: fallback_not_compiled world_simps fallback_checked_simps)
next
  case (tested texts raw)
  then show ?thesis
    by (simp add: fallback_tested world_simps fallback_checked_simps)
qed


subsection \<open>One attempt, branch by branch\<close>

lemma body_gen_error:
  "call_groq E (Attempt a) = Inl e
     \<Longrightarrow> attempt_body E v a pr w = Stop (propagate e) (emit (Generate (Attempt a) pr) w)"
  by (simp add: attempt_body_def)

lemma body_syntax_final:
  "call_groq E (Attempt a) = Inr raw
     \<Longrightarrow> compile E (strip_code_fences raw) = Some (SyntaxError m) \<Longrightarrow> a = max_attempts v
     \<Longrightarrow> attempt_body E v a pr w =
         Stop (Exit 1) (write_text (quarantine_path v) (strip_code_fences raw)
                          (mkdir [py ''artifacts''] (after_check a pr (strip_code_fences raw) w)))"
  by (simp add: attempt_body_def after_check_def Let_def)

lemma body_syntax_retry:
  "call_groq E (Attempt a) = Inr raw
     \<Longrightarrow> compile E (strip_code_fences raw) = Some (SyntaxError m) \<Longrightarrow> a \<noteq> max_attempts v
     \<Longrightarrow> attempt_body E v a pr w =
         Continue (SyntaxFixPrompt m (strip_code_fences raw))
           (after_check a pr (strip_code_fences raw) w)"
  by (simp add: attempt_body_def after_check_def Let_def)

lemma body_compile_error:
  "call_groq E (Attempt a) = Inr raw
     \<Longrightarrow> compile E (strip_code_fences raw) = Some e \<Longrightarrow> \<forall>m. e \<noteq> SyntaxError m
     \<Longrightarrow> attempt_body E v a pr w = Stop (propagate e) (after_check a pr (strip_code_fences raw) w)"
  by (cases e) (simp_all add: attempt_body_def after_check_def Let_def)

lemma body_passed:
  "call_groq E (Attempt a) = Inr raw
     \<Longrightarrow> compile E (strip_code_fences raw) = None \<Longrightarrow> fst (run_tests E (Attempt a))
     \<Longrightarrow> attempt_body E v a pr w =
         Stop (case print_error E tests_passed_line of None \<Rightarrow> Exit 0 | Some e \<Rightarrow> propagate e)
              (after_tests E v a pr (strip_code_fences raw) w)"
  by (simp add: attempt_body_def after_check_def after_tests_def Let_def case_prod_beta
        split: option.split)

lemma body_failed_escape:
  "call_groq E (Attempt a) = Inr raw
     \<Longrightarrow> compile E (strip_code_fences raw) = None \<Longrightarrow> \<not> fst (run_tests E (Attempt a))
     \<Longrightarrow> extract_mismatches (candidate_rows E (Attempt a)) (read_csv_rows E (expected_csv v))
           = Inl e
     \<Longrightarrow> attempt_body E v a pr w =
         Stop (propagate e) (after_mismatches E v a pr (strip_code_fences raw) w)"
  by (simp add: attempt_body_def after_check_def after_tests_def after_mismatches_def Let_def
        case_prod_beta)

lemma body_failed_final:
  "call_groq E (Attempt a) = Inr raw
     \<Longrightarrow> compile E (strip_code_fences raw) = None \<Longrightarrow> \<not> fst (run_tests E (Attempt a))
     \<Longrightarrow> extract_mismatches (candidate_rows E (Attempt a)) (read_csv_rows E (expected_csv v))
           = Inr m
     \<Longrightarrow> a = max_attempts v
     \<Longrightarrow> attempt_body E v a pr w =
         Stop (fst (regex_fallback E v (after_mismatches E v a pr (strip_code_fences raw) w)))
              (snd (regex_fallback E v (after_mismatches E v a pr (strip_code_fences raw) w)))"
  by (simp add: attempt_body_def after_check_def after_tests_def after_mismatches_def Let_def
        case_prod_beta)

lemma body_failed_retry:
  "call_groq E (Attempt a) = Inr raw
     \<Longrightarrow> compile E (strip_code_fences raw) = None \<Longrightarrow> \<not> fst (run_tests E (Attempt a))
     \<Longrightarrow> extract_mismatches (candidate_rows E (Attempt a)) (read_csv_rows E (expected_csv v))
           = Inr m
     \<Longrightarrow> a \<noteq> max_attempts v
     \<Longrightarrow> attempt_body E v a pr w =
         Continue (repair_prompt E v a (strip_code_fences raw) m)
           (after_mismatches E v a pr (strip_code_fences raw) w)"
  by (simp add: attempt_body_def after_check_def after_tests_def after_mismatches_def Let_def
        case_prod_beta repair_prompt_def)

lemma attempt_body_cases:
  obtains (gen_error) e where "call_groq E (Attempt a) = Inl e"
  | (syntax_final) raw m where "call_groq E (Attempt a) = Inr raw"
      "compile E (strip_code_fences raw) = Some (SyntaxError m)" "a = max_attempts v"
  | (syntax_retry) raw m where "call_groq E (Attempt a) = Inr raw"
      "compile E (strip_code_fences raw) = Some (SyntaxError m)" "a \<noteq> max_attempts v"
  | (compile_error) raw e where "call_groq E (Attempt a) = Inr raw"
      "compile E (strip_code_fences raw) = Some e" "\<forall>m. e \<noteq> SyntaxError m"
  | (passed) raw where "call_groq E (Attempt a) = Inr raw"
      "compile E (strip_code_fences raw) = None" "fst (run_tests E (Attempt a))"
  | (failed_escape) raw e where "call_groq E (Attempt a) = Inr raw"
      "compile E (strip_code_fences raw) = None" "\<not> fst (run_tests E (Attempt a))"
      "extract_mismatches (candidate_rows E (Attempt a)) (read_csv_rows E (expected_csv v))
         = Inl e"
  | (failed_final) raw m where "call_groq E (Attempt a) = Inr raw"
      "compile E (strip_code_fences raw) = None" "\<not> fst (run_tests E (Attempt a))"
      "extract_mismatches (candidate_rows E (Attempt a)) (read_csv_rows E (expected_csv v))
         = Inr m"
      "a = max_attempts v"
  | (failed_retry) raw m where "call_groq E (Attempt a) = Inr raw"
      "compile E (strip_code_fences raw) = None" "\<not> fst (run_tests E (Attempt a))"
      "extract_mismatches (candidate_rows E (Attempt a)) (read_csv_rows E (expected_csv v))
         = Inr m"
      "a \<noteq> max_attempts v"
proof (cases "call_groq E (Attempt a)")
  case (Inl e)
  then show ?thesis by (rule gen_error)
next
  case raw: (Inr raw)
  show ?thesis
  proof (cases "compile E (strip_code_fences raw)")
    case None
    show ?thesis
    proof (cases "extract_mismatches (candidate_rows E (Attempt a))
                    (read_csv_rows E (expected_csv v))")
      case (Inl e)
      with raw None show ?thesis
        using passed failed_escape by blast
    next
      case (Inr m)
      with raw None show ?thesis
        using passed failed_final failed_retry by blast
    qed
  next
    case (Some e)
    show ?thesis
    proof (cases "\<exists>m. e = SyntaxError m")
      case True
      with raw Some show ?thesis
        using syntax_final syntax_retry by blast
    next
      case False
      with raw Some show ?thesis
        using compile_error by blast
    qed
  qed
qed

lemma after_check_simps:
  "trace (after_check a pr code w) = trace w @ [Generate (Attempt a) pr, SyntaxCheck code]"
  "files (after_check a pr code w) = files w"
  by (simp_all add: after_check_def emit_simps)

lemma after_tests_trace:
  "trace (after_tests E v a pr code w) =
     trace w @ [Generate (Attempt a) pr, SyntaxCheck code,
                Mkdir (path_parent (parser_path v)), WriteFile (parser_path v) code]
       @ (if ((files w)(parser_path v \<mapsto> code)) (test_file (target v)) = None
          then [Mkdir (path_parent (test_file (target v))),
                WriteFile (test_file (target v)) (test_code E v)]
          else [])
       @ [RunTests]"
  by (simp add: after_tests_def world_simps after_check_simps)

lemma after_tests_files:
  "files (after_tests E v a pr code w) =
     (if ((files w)(parser_path v \<mapsto> code)) (test_file (target v)) = None
      then (files w)(parser_path v \<mapsto> code, test_file (target v) \<mapsto> test_code E v)
      else (files w)(parser_path v \<mapsto> code))"
  by (simp add: after_tests_def world_simps after_check_simps)

lemma after_mismatches_simps:
  "trace (after_mismatches E v a pr code w) =
     trace (after_tests E v a pr code w) @ [LoadCandidate (parser_path v)]"
  "files (after_mismatches E v a pr code w) = files (after_tests E v a pr code w)"
  by (simp_all add: after_mismatches_def emit_simps)


subsection \<open>What one attempt preserves\<close>

lemma paths_distinct_iff:
  "paths_distinct v \<longleftrightarrow>
     parser_path v \<noteq> test_file (target v) \<and> test_file (target v) \<noteq> parser_path v
     \<and> quarantine_path v \<noteq> test_file (target v) \<and> test_file (target v) \<noteq> quarantine_path v
     \<and> parser_path v \<noteq> quarantine_path v \<and> quarantine_path v \<noteq> parser_path v"
  by (auto simp: paths_distinct_def)


lemma attempt_body_test_written_once:
  assumes "test_written_once v w" "paths_distinct v"
  shows "test_written_once v (step_world (attempt_body E v a pr w))"
proof (cases rule: attempt_body_cases [where E=E and a=a and v=v])
  case (gen_error e)
  with assms show ?thesis
    by (auto simp: body_gen_error test_written_once_def world_simps split: if_splits)
next
  case (syntax_final raw m)
  with assms show ?thesis
    by (auto simp: body_syntax_final test_written_once_def world_simps after_check_simps
          paths_distinct_iff split: if_splits)
next
  case (syntax_retry raw m)
  with assms show ?thesis
    by (auto simp: body_syntax_retry test_written_once_def world_simps after_check_simps split: if_splits)
next
  case (compile_error raw e)
  with assms show ?thesis
    by (auto simp: body_compile_error test_written_once_def world_simps after_check_simps split: if_splits)
next
  case (passed raw)
  with assms show ?thesis
    by (auto simp: body_passed test_written_once_def world_simps after_tests_trace
          after_tests_files paths_distinct_iff split: if_splits)
next
  case (failed_escape raw e)
  with assms show ?thesis
    by (auto simp: body_failed_escape test_written_once_def world_simps after_tests_trace
          after_tests_files after_mismatches_simps paths_distinct_iff split: if_splits)
next
  case (failed_final raw m)
  from assms
  have "test_written_once v (after_mismatches E v a pr (strip_code_fences raw) w)"
    by (auto simp: test_written_once_def world_simps after_tests_trace after_tests_files
          after_mismatches_simps paths_distinct_iff split: if_splits)
  moreover from assms have "parser_path v \<noteq> test_file (target v)"
    by (simp add: paths_distinct_iff)
  ultimately show ?thesis
    using failed_final
    by (auto simp: body_failed_final test_written_once_def regex_fallback_test_file split: if_splits)
next
  case (failed_retry raw m)
  with assms show ?thesis
    by (auto simp: body_failed_retry test_written_once_def world_simps after_tests_trace
          after_tests_files after_mismatches_simps paths_distinct_iff split: if_splits)
qed

lemma attempt_body_test_file_kept:
  assumes "files w (test_file (target v)) = Some c" "paths_distinct v"
  shows "files (step_world (attempt_body E v a pr w)) (test_file (target v)) = Some c
    \<and> writes_to (test_file (target v)) (trace (step_world (attempt_body E v a pr w)))
      = writes_to (test_file (target v)) (trace w)"
proof (cases rule: attempt_body_cases [where E=E and a=a and v=v])
  case (gen_error e)
  with assms show ?thesis
    by (simp add: body_gen_error world_simps)
next
  case (syntax_final raw m)
  with assms show ?thesis
    by (simp add: body_syntax_final world_simps after_check_simps paths_distinct_iff)
next
  case (syntax_retry raw m)
  with assms show ?thesis
    by (simp add: body_syntax_retry world_simps after_check_simps)
next
  case (compile_error raw e)
  with assms show ?thesis
    by (simp add: body_compile_error world_simps after_check_simps)
next
  case (passed raw)
  with assms show ?thesis
    by (simp add: body_passed world_simps after_tests_trace after_tests_files paths_distinct_iff)
next
  case (failed_escape raw e)
  with assms show ?thesis
    by (simp add: body_failed_escape world_simps after_tests_trace
          after_tests_files after_mismatches_simps paths_distinct_iff)
next
  case (failed_final raw m)
  from assms
  have "files (after_mismatches E v a pr (strip_code_fences raw) w) (test_file (target v)) = Some c
    \<and> writes_to (test_file (target v)) (trace (after_mismatches E v a pr (strip_code_fences raw) w))
      = writes_to (test_file (target v)) (trace w)"
    by (simp add: world_simps after_tests_trace after_tests_files
          after_mismatches_simps paths_distinct_iff)
  moreover from assms have "parser_path v \<noteq> test_file (target v)"
    by (simp add: paths_distinct_iff)
  ultimately show ?thesis
    using failed_final
    by (simp add: body_failed_final regex_fallback_test_file)
next
  case (failed_retry raw m)
  with assms show ?thesis
    by (simp add: body_failed_retry world_simps after_tests_trace
          after_tests_files after_mismatches_simps paths_distinct_iff)
qed

lemma after_tests_gen_points:
  "gen_points (trace (after_tests E v a pr code w)) = gen_points (trace w) @ [Attempt a]"
  by (simp add: after_tests_trace gen_points_append)

lemma attempt_body_gen_points:
  "(\<exists>pr' w'. attempt_body E v a pr w = Continue pr' w'
        \<and> gen_points (trace w') = gen_points (trace w) @ [Attempt a])
   \<or> (\<exists>out w'. attempt_body E v a pr w = Stop out w'
        \<and> (gen_points (trace w') = gen_points (trace w) @ [Attempt a]
           \<or> gen_points (trace w') = gen_points (trace w) @ [Attempt a, Fallback]))"
proof (cases rule: attempt_body_cases [where E=E and a=a and v=v])
  case (gen_error e)
  then show ?thesis
    by (simp add: body_gen_error world_simps)
next
  case (syntax_final raw m)
  then show ?thesis
    by (simp add: body_syntax_final world_simps after_check_simps)
next
  case (syntax_retry raw m)
  then show ?thesis
    by (simp add: body_syntax_retry world_simps after_check_simps)
next
  case (compile_error raw e)
  then show ?thesis
    by (simp add: body_compile_error world_simps after_check_simps)
next
  case (passed raw)
  then show ?thesis
    by (simp add: body_passed after_tests_gen_points)
next
  case (failed_escape raw e)
  then show ?thesis
    by (simp add: body_failed_escape after_mismatches_simps after_tests_gen_points
          gen_points_append)
next
  case (failed_final raw m)
  let ?w = "after_mismatches E v a pr (strip_code_fences raw) w"
  have "gen_points (trace ?w) = gen_points (trace w) @ [Attempt a]"
    by (simp add: after_mismatches_simps after_tests_gen_points gen_points_append)
  with regex_fallback_gen_points [of E v ?w] failed_final show ?thesis
    by (auto simp: body_failed_final)
next
  case (failed_retry raw m)
  then show ?thesis
    by (simp add: body_failed_retry after_mismatches_simps after_tests_gen_points
          gen_points_append)
qed

subsection \<open>The loop\<close>


lemma attempt_loop_test_written_once:
  "test_written_once v w \<Longrightarrow> paths_distinct v
     \<Longrightarrow> test_written_once v (snd (attempt_loop E v as pr w))"
proof (induction as arbitrary: pr w)
  case Nil
  then show ?case by simp
next
  case (Cons a as)
  from Cons.prems
  have step: "test_written_once v (step_world (attempt_body E v a pr w))"
    by (rule attempt_body_test_written_once)
  show ?case
  proof (cases "attempt_body E v a pr w")
    case (Stop out w')
    with step show ?thesis by simp
  next
    case (Continue pr' w')
    with step Cons.IH [of w' pr'] Cons.prems(2) show ?thesis by simp
  qed
qed

lemma attempt_loop_test_file_kept:
  "files w (test_file (target v)) = Some c \<Longrightarrow> paths_distinct v
     \<Longrightarrow> files (snd (attempt_loop E v as pr w)) (test_file (target v)) = Some c
       \<and> writes_to (test_file (target v)) (trace (snd (attempt_loop E v as pr w)))
         = writes_to (test_file (target v)) (trace w)"
proof (induction as arbitrary: pr w)
  case Nil
  then show ?case by simp
next
  case (Cons a as)
  from Cons.prems
  have step: "files (step_world (attempt_body E v a pr w)) (test_file (target v)) = Some c
    \<and> writes_to (test_file (target v)) (trace (step_world (attempt_body E v a pr w)))
      = writes_to (test_file (target v)) (trace w)"
    by (rule attempt_body_test_file_kept)
  show ?case
  proof (cases "attempt_body E v a pr w")
    case (Stop out w')
    with step show ?thesis by simp
  next
    case (Continue pr' w')
    with step Cons.IH [of w' pr'] Cons.prems(2) show ?thesis by simp
  qed
qed


lemma body_fails_continue:
  assumes "fails_and_goes_on E (expected_csv v) (Attempt a)" "a \<noteq> max_attempts v"
  shows "\<exists>pr' w'. attempt_body E v a pr w = Continue pr' w'
           \<and> gen_points (trace w') = gen_points (trace w) @ [Attempt a]"
proof -
  from attempt_body_gen_points [of E v a pr w]
  have "(\<exists>out w'. attempt_body E v a pr w = Stop out w') \<or> ?thesis" by blast
  moreover have "attempt_body E v a pr w \<noteq> Stop out w'" for out w'
  proof (cases rule: attempt_body_cases [where E=E and a=a and v=v])
    case (gen_error e)
    with assms show ?thesis
      by (simp add: fails_and_goes_on_def fails_syntax_def fails_tests_def)
  next
    case (syntax_final raw m)
    with assms show ?thesis by simp
  next
    case (syntax_retry raw m)
    then show ?thesis by (simp add: body_syntax_retry)
  next
    case (compile_error raw e)
    with assms show ?thesis
      by (cases e) (simp_all add: fails_and_goes_on_def fails_syntax_def fails_tests_def)
  next
    case (passed raw)
    with assms show ?thesis
      by (simp add: fails_and_goes_on_def fails_syntax_def fails_tests_def)
  next
    case (failed_escape raw e)
    with assms show ?thesis
      by (simp add: fails_and_goes_on_def fails_syntax_def diagnosed_def)
  next
    case (failed_final raw m)
    with assms show ?thesis by simp
  next
    case (failed_retry raw m)
    then show ?thesis by (simp add: body_failed_retry)
  qed
  ultimately show ?thesis by blast
qed

lemma loop_skips_failed:
  assumes "\<forall>a \<in> set as. a \<noteq> max_attempts v
             \<and> fails_and_goes_on E (expected_csv v) (Attempt a)"
  shows "\<exists>pr' w'. attempt_loop E v (as @ rest) pr w = attempt_loop E v rest pr' w'
           \<and> gen_points (trace w') = gen_points (trace w) @ map Attempt as"
  using assms
proof (induction as arbitrary: pr w)
  case Nil
  show ?case by (rule exI [of _ pr], rule exI [of _ w]) simp
next
  case (Cons a as)
  then have "fails_and_goes_on E (expected_csv v) (Attempt a)" "a \<noteq> max_attempts v"
    by simp_all
  then obtain pr1 w1 where b: "attempt_body E v a pr w = Continue pr1 w1"
    and g: "gen_points (trace w1) = gen_points (trace w) @ [Attempt a]"
    using body_fails_continue by blast
  from Cons.prems have "\<forall>a \<in> set as. a \<noteq> max_attempts v
                          \<and> fails_and_goes_on E (expected_csv v) (Attempt a)"
    by simp
  from Cons.IH [OF this, of pr1 w1] obtain pr' w'
    where "attempt_loop E v (as @ rest) pr1 w1 = attempt_loop E v rest pr' w'"
      and "gen_points (trace w') = gen_points (trace w1) @ map Attempt as"
    by blast
  with b g show ?case by (intro exI [of _ pr'] exI [of _ w']) simp
qed

subsection \<open>The configuration table and the start of a run\<close>

lemma BANK_CONFIG_SomeD:
  assumes "BANK_CONFIG t = Some cfg"
  shows "t = py ''icici''"
    and "cfg = \<lparr>cfg_sample_pdf = [py ''data'', py ''icici'', py ''icici_sample.pdf''],
               cfg_expected_csv = [py ''data'', py ''icici'', py ''icici_expected.csv''],
               cfg_parser_path = [py ''custom_parsers'', py ''icici_parser.py''],
               cfg_max_attempts = Some 3\<rparr>"
  using assms by (simp_all add: BANK_CONFIG_def split: if_splits)

lemma budget_configured: "BANK_CONFIG t = Some cfg \<Longrightarrow> budget cfg = 3"
  by (drule BANK_CONFIG_SomeD(2)) (simp add: budget_def)

lemma py_first_components:
  "py ''custom_parsers'' \<noteq> py ''tests''" "py ''artifacts'' \<noteq> py ''tests''"
  "py ''custom_parsers'' \<noteq> py ''artifacts''"
  by (simp_all add: py_def)

lemma paths_configured:
  assumes "BANK_CONFIG t = Some cfg"
  shows "paths_distinct (main_locals t cfg hs)"
  using BANK_CONFIG_SomeD [OF assms] py_first_components
  by (simp add: paths_distinct_def main_locals_def test_file_def quarantine_path_def)

lemma main_locals_simps:
  "target (main_locals t cfg hs) = t" "parser_path (main_locals t cfg hs) = cfg_parser_path cfg"
  "max_attempts (main_locals t cfg hs) = budget cfg"
  "sample_pdf (main_locals t cfg hs) = cfg_sample_pdf cfg"
  "expected_csv (main_locals t cfg hs) = cfg_expected_csv cfg"
  by (simp_all add: main_locals_def)

lemma loaded_simps:
  "files (loaded cfg fs) = fs"
  "trace (loaded cfg fs) = [ReadHeaders (cfg_expected_csv cfg), OpenPdf (cfg_sample_pdf cfg)]"
  by (simp_all add: loaded_def)

lemma run_no_key:
  "environ E ''GROQ_API_KEY'' = None \<or> environ E ''GROQ_API_KEY'' = Some []
     \<Longrightarrow> run E t fs = (Exit 1, \<lparr>files = fs, trace = []\<rparr>)"
  by (auto simp: run_def program_def)

lemma run_unknown_target:
  "BANK_CONFIG t = None \<Longrightarrow> run E t fs = (Exit 1, \<lparr>files = fs, trace = []\<rparr>)"
  by (simp add: run_def program_def main_def split: option.splits)

lemma run_loop:
  assumes "environ E ''GROQ_API_KEY'' = Some key" "key \<noteq> []" "BANK_CONFIG t = Some cfg"
    "read_csv_headers E (cfg_expected_csv cfg) = Inr hs"
    "open_pdf E (cfg_sample_pdf cfg) = Inr pages"
  shows "\<exists>preview. extract_table_preview pages 2 = Inr preview
           \<and> run E t fs = attempt_loop E (main_locals t cfg hs) [1 .. budget cfg]
                            (InitialPrompt t hs preview) (loaded cfg fs)"
proof -
  obtain preview where p: "extract_table_preview pages 2 = Inr preview"
    using extract_table_preview_total [of pages 2] by blast
  with assms have "run E t fs = attempt_loop E (main_locals t cfg hs) [1 .. budget cfg]
                            (InitialPrompt t hs preview) (loaded cfg fs)"
    by (simp add: run_def program_def main_def load_expected_headers_def Let_def emit_def
          main_locals_def loaded_def)
  with p show ?thesis by blast
qed

lemma run_cases:
  obtains (early) out tr where "run E t fs = (out, \<lparr>files = fs, trace = tr\<rparr>)"
      "gen_points tr = []" "\<forall>p. writes_to p tr = []"
  | (loop) cfg hs preview where "BANK_CONFIG t = Some cfg"
      "run E t fs = attempt_loop E (main_locals t cfg hs) [1 .. budget cfg]
                      (InitialPrompt t hs preview) (loaded cfg fs)"
proof (cases "environ E ''GROQ_API_KEY'' = None \<or> environ E ''GROQ_API_KEY'' = Some []")
  case True
  then have "run E t fs = (Exit 1, \<lparr>files = fs, trace = []\<rparr>)" by (rule run_no_key)
  then show ?thesis by (rule early) simp_all
next
  case False
  then obtain key where key: "environ E ''GROQ_API_KEY'' = Some key" "key \<noteq> []" by auto
  show ?thesis
  proof (cases "BANK_CONFIG t")
    case None
    then have "run E t fs = (Exit 1, \<lparr>files = fs, trace = []\<rparr>)" by (rule run_unknown_target)
    then show ?thesis by (rule early) simp_all
  next
    case cfg: (Some cfg)
    show ?thesis
    proof (cases "read_csv_headers E (cfg_expected_csv cfg)")
      case (Inl e)
      with key cfg
      have "run E t fs = (propagate e, \<lparr>files = fs, trace = [ReadHeaders (cfg_expected_csv cfg)]\<rparr>)"
        by (simp add: run_def program_def main_def load_expected_headers_def Let_def emit_def)
      then show ?thesis by (rule early) simp_all
    next
      case hs: (Inr hs)
      show ?thesis
      proof (cases "open_pdf E (cfg_sample_pdf cfg)")
        case (Inl e)
        with key cfg hs
        have "run E t fs = (propagate e, \<lparr>files = fs,
                 trace = [ReadHeaders (cfg_expected_csv cfg), OpenPdf (cfg_sample_pdf cfg)]\<rparr>)"
          by (simp add: run_def program_def main_def load_expected_headers_def Let_def emit_def)
        then show ?thesis by (rule early) simp_all
      next
        case (Inr pages)
        with key cfg hs show ?thesis
          using run_loop [of E key t cfg hs pages fs] loop by blast
      qed
    qed
  qed
qed

lemma upto_1_3: "[1 .. (3::int)] = [1, 2, 3]"
  by (simp add: upto.simps)

subsection \<open>The example environments\<close>


lemma icici_configured:
  "BANK_CONFIG (py ''icici'') = Some (the (BANK_CONFIG (py ''icici'')))"
  by (simp add: BANK_CONFIG_def)

lemma icici_budget: "budget (the (BANK_CONFIG (py ''icici''))) = 3"
  by (simp add: BANK_CONFIG_def budget_def)


lemma hdfc_not_configured: "BANK_CONFIG (py ''hdfc'') = None"
  by (simp add: BANK_CONFIG_def py_def)

lemma py_key_nonempty: "py ''key'' \<noteq> []"
  by (simp add: py_def)




subsection \<open>The claims about a run\<close>

text \<open>
  Claim C7.  If the target given on the command line is not a key of the configuration
  table, the process ends with exit code 1, and nothing has been done: the trace is
  empty, so no call to the generation endpoint was made, and no file was written.
\<close>

theorem unknown_target_exits:
  assumes "BANK_CONFIG t = None"
  shows "fst (run E t fs) = Exit 1 \<and> exit_code (fst (run E t fs)) = 1
    \<and> gen_points (trace (snd (run E t fs))) = []
    \<and> snd (run E t fs) = \<lparr>files = fs, trace = []\<rparr>"
  using assms by (simp add: run_unknown_target)

text \<open>The same at the target \<open>hdfc\<close>, which the table does not hold.\<close>

theorem unknown_target_exits_witness:
  "BANK_CONFIG (py ''hdfc'') = None
   \<and> fst (run (example_env [] 0) (py ''hdfc'') Map.empty) = Exit 1
   \<and> gen_points (trace (snd (run (example_env [] 0) (py ''hdfc'') Map.empty))) = []"
  using unknown_target_exits [of "py ''hdfc''" "example_env [] 0" Map.empty]
  by (simp add: hdfc_not_configured)

text \<open>
  Claim C8.  If the API key is absent from the environment, the process ends with exit
  code 1 before anything else is done: the trace is empty (no fixture read, no prompt
  sent, no call to the generation endpoint) and the files are as they were.
\<close>

theorem missing_api_key_exits:
  assumes "environ E ''GROQ_API_KEY'' = None"
  shows "fst (run E t fs) = Exit 1 \<and> exit_code (fst (run E t fs)) = 1
    \<and> snd (run E t fs) = \<lparr>files = fs, trace = []\<rparr>"
  using assms by (simp add: run_no_key)

text \<open>The same in an environment with no variable set.\<close>

theorem missing_api_key_exits_witness:
  "environ ((example_env [] 0)\<lparr>environ := Map.empty\<rparr>) ''GROQ_API_KEY'' = None
   \<and> fst (run ((example_env [] 0)\<lparr>environ := Map.empty\<rparr>) (py ''icici'') Map.empty) = Exit 1
   \<and> trace (snd (run ((example_env [] 0)\<lparr>environ := Map.empty\<rparr>) (py ''icici'') Map.empty)) = []"
  using missing_api_key_exits [of "(example_env [] 0)\<lparr>environ := Map.empty\<rparr>" "py ''icici''"
      Map.empty]
  by simp

text \<open>
  A run that gets as far as the first generation and whose first candidate compiles and
  passes the test run ends after that one attempt, with exit code 0 when the success line
  is printed and with the exception of the print otherwise.
\<close>

lemma first_attempt_passes:
  assumes "environ E ''GROQ_API_KEY'' = Some key" "key \<noteq> []" "BANK_CONFIG t = Some cfg"
    "read_csv_headers E (cfg_expected_csv cfg) = Inr hs"
    "open_pdf E (cfg_sample_pdf cfg) = Inr pages"
    "call_groq E (Attempt 1) = Inr raw"
    "compile E (strip_code_fences raw) = None"
    "fst (run_tests E (Attempt 1))"
  shows "fst (run E t fs) =
           (case print_error E tests_passed_line of None \<Rightarrow> Exit 0 | Some e \<Rightarrow> propagate e)
    \<and> gen_points (trace (snd (run E t fs))) = [Attempt 1]
    \<and> (\<exists>preview. extract_table_preview pages 2 = Inr preview
        \<and> trace (snd (run E t fs)) =
            [ReadHeaders (cfg_expected_csv cfg), OpenPdf (cfg_sample_pdf cfg),
             Generate (Attempt 1) (InitialPrompt t hs preview),
             SyntaxCheck (strip_code_fences raw),
             Mkdir (path_parent (cfg_parser_path cfg)),
             WriteFile (cfg_parser_path cfg) (strip_code_fences raw)]
            @ (if fs (test_file t) = None
               then [Mkdir (path_parent (test_file t)),
                     WriteFile (test_file t) (test_code E (main_locals t cfg hs))]
               else [])
            @ [RunTests])"
proof -
  let ?v = "main_locals t cfg hs"
  let ?out = "case print_error E tests_passed_line of None \<Rightarrow> Exit 0 | Some e \<Rightarrow> propagate e"
  obtain preview where p: "extract_table_preview pages 2 = Inr preview"
    and r: "run E t fs = attempt_loop E ?v [1 .. budget cfg]
              (InitialPrompt t hs preview) (loaded cfg fs)"
    using run_loop [OF assms(1-5)] by blast
  from assms(3) have d: "paths_distinct ?v" by (rule paths_configured)
  have "attempt_body E ?v 1 (InitialPrompt t hs preview) (loaded cfg fs) =
          Stop ?out (after_tests E ?v 1 (InitialPrompt t hs preview)
            (strip_code_fences raw) (loaded cfg fs))"
    using assms(6-8) by (rule body_passed)
  with r budget_configured [OF assms(3)]
  have run: "run E t fs = (?out, after_tests E ?v 1 (InitialPrompt t hs preview)
            (strip_code_fences raw) (loaded cfg fs))"
    by (simp add: upto_1_3)
  from d have tr: "trace (snd (run E t fs)) =
            [ReadHeaders (cfg_expected_csv cfg), OpenPdf (cfg_sample_pdf cfg),
             Generate (Attempt 1) (InitialPrompt t hs preview),
             SyntaxCheck (strip_code_fences raw),
             Mkdir (path_parent (cfg_parser_path cfg)),
             WriteFile (cfg_parser_path cfg) (strip_code_fences raw)]
            @ (if fs (test_file t) = None
               then [Mkdir (path_parent (test_file t)),
                     WriteFile (test_file t) (test_code E (main_locals t cfg hs))]
               else [])
            @ [RunTests]"
    by (simp add: run after_tests_trace loaded_simps main_locals_simps paths_distinct_iff)
  have "gen_points (trace (snd (run E t fs))) = [Attempt 1]"
    by (simp add: run after_tests_gen_points loaded_simps)
  with run p tr show ?thesis by auto
qed

lemma narrow_stdout_env_simps:
  "environ narrow_stdout_env ''GROQ_API_KEY'' = Some (py ''key'')"
  "read_csv_headers narrow_stdout_env p = Inr [py ''Date'', py ''Balance'']"
  "open_pdf narrow_stdout_env p = Inr one_row_pdf"
  "call_groq narrow_stdout_env g = Inr (py ''import pandas'')"
  "compile narrow_stdout_env (py ''import pandas'') = None"
  "fst (run_tests narrow_stdout_env g)"
  "print_error narrow_stdout_env tests_passed_line = Some UnicodeEncodeError"
  by (simp_all add: narrow_stdout_env_def example_env_def call_groq_def run_tests_def
        tests_passed_line_def)

text \<open>
  Claim C9, at a run whose standard output encodes code points up to 255 only and whose
  sample document gives a preview of one row of ASCII text.  The first
  candidate compiles and the test run passes; printing the success line, which starts
  with the check mark U+2705, raises UnicodeEncodeError before \<open>sys.exit(0)\<close> is
  reached, and the process ends with that uncaught exception, exit status 1, after its
  one attempt.
\<close>

theorem passing_candidate_unprintable:
  "call_groq narrow_stdout_env (Attempt 1) = Inr (py ''import pandas'')
   \<and> compile narrow_stdout_env (strip_code_fences (py ''import pandas'')) = None
   \<and> fst (run_tests narrow_stdout_env (Attempt 1))
   \<and> fst (run narrow_stdout_env (py ''icici'') Map.empty) = Uncaught UnicodeEncodeError
   \<and> exit_code (fst (run narrow_stdout_env (py ''icici'') Map.empty)) = 1
   \<and> gen_points (trace (snd (run narrow_stdout_env (py ''icici'') Map.empty))) = [Attempt 1]"
  using first_attempt_passes [of narrow_stdout_env "py ''key''"
      "py ''icici''" "the (BANK_CONFIG (py ''icici''))" "[py ''Date'', py ''Balance'']"
      one_row_pdf "py ''import pandas''" Map.empty]
  by (simp add: narrow_stdout_env_simps icici_configured [symmetric] py_key_nonempty
        strip_code_fences_import)

text \<open>
  Claim C5.  In every run the companion test file is written at most once; and when the
  file is on disk at the start of the run, the run never writes it and its contents at
  the end are the contents at the start.  This holds for every run, so also for each
  later run of the controller.
\<close>

theorem test_file_never_rewritten:
  "length (writes_to (test_file t) (trace (snd (run E t fs)))) \<le> 1
   \<and> (fs (test_file t) = Some c \<longrightarrow>
        files (snd (run E t fs)) (test_file t) = Some c
        \<and> writes_to (test_file t) (trace (snd (run E t fs))) = [])"
proof (cases rule: run_cases [where E=E and t=t and fs=fs])
  case (early out tr)
  then show ?thesis by simp
next
  case (loop cfg hs preview)
  let ?v = "main_locals t cfg hs"
  from loop(1) have d: "paths_distinct ?v" by (rule paths_configured)
  have "test_written_once ?v (loaded cfg fs)"
    by (simp add: test_written_once_def loaded_simps)
  from attempt_loop_test_written_once [OF this d, of E "[1 .. budget cfg]"
      "InitialPrompt t hs preview"]
  have once: "length (writes_to (test_file t) (trace (snd (run E t fs)))) \<le> 1"
    by (simp add: loop(2) test_written_once_def main_locals_simps split: if_splits)
  have "files (snd (run E t fs)) (test_file t) = Some c
        \<and> writes_to (test_file t) (trace (snd (run E t fs))) = []"
    if "fs (test_file t) = Some c"
  proof -
    from that have "files (loaded cfg fs) (test_file (target ?v)) = Some c"
      by (simp add: loaded_simps main_locals_simps)
    from attempt_loop_test_file_kept [OF this d, of E "[1 .. budget cfg]"
      "InitialPrompt t hs preview"]
    show ?thesis
      by (simp add: loop(2) main_locals_simps loaded_simps)
  qed
  with once show ?thesis by blast
qed

text \<open>The same for a run that fails all its attempts, with a test file already there.\<close>

theorem test_file_never_rewritten_witness:
  "files (snd (run (example_env (py ''import pandas'') 1) (py ''icici'')
                 [test_file (py ''icici'') \<mapsto> py ''old'']))
         (test_file (py ''icici'')) = Some (py ''old'')
   \<and> writes_to (test_file (py ''icici''))
         (trace (snd (run (example_env (py ''import pandas'') 1) (py ''icici'')
                       [test_file (py ''icici'') \<mapsto> py ''old'']))) = []"
  using test_file_never_rewritten [of "py ''icici''" "example_env (py ''import pandas'') 1"
      "[test_file (py ''icici'') \<mapsto> py ''old'']" "py ''old''"]
  by simp

subsection \<open>The final attempt\<close>

lemma run_reaches_final_attempt:
  assumes "environ E ''GROQ_API_KEY'' = Some key" "key \<noteq> []" "BANK_CONFIG t = Some cfg"
    "read_csv_headers E (cfg_expected_csv cfg) = Inr hs"
    "open_pdf E (cfg_sample_pdf cfg) = Inr pages"
    "\<forall>n. 1 \<le> n \<and> n < budget cfg \<longrightarrow> fails_and_goes_on E (cfg_expected_csv cfg) (Attempt n)"
  shows "\<exists>pr w. run E t fs = attempt_loop E (main_locals t cfg hs) [budget cfg] pr w
           \<and> gen_points (trace w) = map Attempt [1 .. budget cfg - 1]"
proof -
  let ?v = "main_locals t cfg hs"
  obtain preview where r: "run E t fs = attempt_loop E ?v [1 .. budget cfg]
              (InitialPrompt t hs preview) (loaded cfg fs)"
    using run_loop [OF assms(1-5)] by blast
  have b: "1 \<le> budget cfg" using budget_configured [OF assms(3)] by simp
  then have split: "[1 .. budget cfg] = [1 .. budget cfg - 1] @ [budget cfg]"
    by (rule upto_rec2)
  from assms(6)
  have "\<forall>a \<in> set [1 .. budget cfg - 1]. a \<noteq> max_attempts ?v
          \<and> fails_and_goes_on E (expected_csv ?v) (Attempt a)"
    by (simp add: main_locals_simps)
  from loop_skips_failed [OF this, of "[budget cfg]" "InitialPrompt t hs preview" "loaded cfg fs"]
  obtain pr w where "attempt_loop E ?v ([1 .. budget cfg - 1] @ [budget cfg])
        (InitialPrompt t hs preview) (loaded cfg fs) = attempt_loop E ?v [budget cfg] pr w"
    and "gen_points (trace w) = gen_points (trace (loaded cfg fs)) @ map Attempt [1 .. budget cfg - 1]"
    by blast
  with r split show ?thesis
    by (intro exI [of _ pr] exI [of _ w]) (simp add: loaded_simps)
qed


lemma upto_budget:
  assumes "BANK_CONFIG t = Some cfg"
  shows "[1 .. budget cfg] = [1 .. budget cfg - 1] @ [budget cfg]"
proof -
  have "1 \<le> budget cfg" using budget_configured [OF assms] by simp
  then show ?thesis by (rule upto_rec2)
qed


lemma run_final_escape_points:
  assumes "environ E ''GROQ_API_KEY'' = Some key" "key \<noteq> []" "BANK_CONFIG t = Some cfg"
    "read_csv_headers E (cfg_expected_csv cfg) = Inr hs"
    "open_pdf E (cfg_sample_pdf cfg) = Inr pages"
    "\<forall>n. 1 \<le> n \<and> n < budget cfg \<longrightarrow> fails_and_goes_on E (cfg_expected_csv cfg) (Attempt n)"
    "fails_tests E (Attempt (budget cfg))"
    "\<not> diagnosed E (cfg_expected_csv cfg) (Attempt (budget cfg))"
  shows "gen_points (trace (snd (run E t fs))) = map Attempt [1 .. budget cfg]"
proof -
  let ?v = "main_locals t cfg hs"
  obtain pr w where r: "run E t fs = attempt_loop E ?v [budget cfg] pr w"
    and g: "gen_points (trace w) = map Attempt [1 .. budget cfg - 1]"
    using run_reaches_final_attempt [OF assms(1-6)] by blast
  from assms(7) obtain raw where f: "call_groq E (Attempt (budget cfg)) = Inr raw"
    "compile E (strip_code_fences raw) = None" "\<not> fst (run_tests E (Attempt (budget cfg)))"
    by (auto simp: fails_tests_def split: sum.splits)
  from assms(8) obtain e where e: "extract_mismatches (candidate_rows E (Attempt (budget cfg)))
        (read_csv_rows E (expected_csv ?v)) = Inl e"
    by (auto simp: diagnosed_def main_locals_simps split: sum.splits)
  have "attempt_body E ?v (budget cfg) pr w =
          Stop (propagate e) (after_mismatches E ?v (budget cfg) pr (strip_code_fences raw) w)"
    using f e by (rule body_failed_escape)
  with r have "run E t fs =
      (propagate e, after_mismatches E ?v (budget cfg) pr (strip_code_fences raw) w)"
    by simp
  then show ?thesis
    by (simp add: after_mismatches_simps after_tests_gen_points gen_points_append g)
       (simp add: upto_budget [OF assms(3)])
qed





lemma exiting_candidate_env_simps:
  "environ exiting_candidate_env ''GROQ_API_KEY'' = Some (py ''key'')"
  "read_csv_headers exiting_candidate_env p = Inr [py ''Date'', py ''Balance'']"
  "open_pdf exiting_candidate_env p = Inr []"
  "call_groq exiting_candidate_env g = Inr (py ''import pandas'')"
  "compile exiting_candidate_env (py ''import pandas'') = None"
  "\<not> fst (run_tests exiting_candidate_env g)"
  "diagnosed exiting_candidate_env p g \<longleftrightarrow> g \<noteq> Attempt 3"
  by (simp_all add: exiting_candidate_env_def example_env_def call_groq_def run_tests_def
        diagnosed_def extract_mismatches_def try_mismatches_def)

text \<open>
  Where the candidate of the final attempt compiles, fails the tests and ends the process
  when it is loaded, the run makes its three generation calls and no fallback
  generation.
\<close>

lemma exiting_candidate_without_fallback:
  "fails_tests exiting_candidate_env (Attempt 3)
   \<and> gen_points (trace (snd (run exiting_candidate_env (py ''icici'') Map.empty)))
       = [Attempt 1, Attempt 2, Attempt 3]"
  using run_final_escape_points [of exiting_candidate_env "py ''key''"
      "py ''icici''" "the (BANK_CONFIG (py ''icici''))" "[py ''Date'', py ''Balance'']" "[]"
      Map.empty]
  by (simp add: exiting_candidate_env_simps icici_configured [symmetric] py_key_nonempty
        icici_budget fails_and_goes_on_def fails_tests_def strip_code_fences_import upto_1_3)




end
